theory Spec2Isabelle
  imports Main
begin

section \<open>JavaScript values used by the client\<close>

text \<open>
  The client is event driven and single threaded: every handler runs to completion, and
  an \<^verbatim>\<open>async\<close> function gives up control only at an \<^verbatim>\<open>await\<close>. Handlers are
  modelled as functions on explicit state records; clocks, timers firing and the outcome of
  network requests are inputs supplied by the environment.

  Strings are \<^typ>\<open>string\<close>. The markers the code looks for are ASCII, so searching the
  UTF-8 bytes finds them exactly where JavaScript finds them in the UTF-16 string.
\<close>

datatype js_error = TypeError | QuotaExceededError

fun starts_with :: "string \<Rightarrow> string \<Rightarrow> bool" where
  "starts_with s [] = True"
| "starts_with [] (p # ps) = False"
| "starts_with (c # cs) (p # ps) = (c = p \<and> starts_with cs ps)"

text \<open>\<^verbatim>\<open>String.prototype.includes\<close>: some position of the string starts with the pattern.\<close>

fun str_includes :: "string \<Rightarrow> string \<Rightarrow> bool" where
  "str_includes [] p = (p = [])"
| "str_includes (c # cs) p = (starts_with (c # cs) p \<or> str_includes cs p)"

text \<open>\<^verbatim>\<open>String(n)\<close> for an integer: its decimal digits.\<close>

definition digit_char :: "nat \<Rightarrow> char" where
  "digit_char d = ''0123456789'' ! d"

function string_of_nat :: "nat \<Rightarrow> string" where
  "string_of_nat n =
     (if n < 10 then [digit_char n] else string_of_nat (n div 10) @ [digit_char (n mod 10)])"
  by pat_completeness auto
termination
  by (relation "measure (\<lambda>n. n)") auto

declare string_of_nat.simps [simp del]

definition js_String :: "int \<Rightarrow> string" where
  "js_String i = (if i < 0 then CHR ''-'' # string_of_nat (nat (- i)) else string_of_nat (nat i))"

section \<open>Feed messages and notifications\<close>

text \<open>
  A parsed feed message. Every field may be missing from the JSON object, so every field is
  an option; \<open>None\<close> is JavaScript's \<^verbatim>\<open>undefined\<close>. An action of the feed has a
  kind, a label and an optional body.
\<close>

record raw_action =
  ra_action :: string
  ra_label :: string
  ra_body :: "string option"

record raw_message =
  m_id :: "string option"
  m_event :: "string option"
  m_title :: "string option"
  m_message :: "string option"
  m_time :: "int option"
  m_priority :: "int option"
  m_tags :: "string list option"
  m_actions :: "raw_action list option"

datatype ntype = Done | Decision | Approve | Permission | Choice

text \<open>The \<^verbatim>\<open>{label, body}\<close> objects built by \<^verbatim>\<open>extractActions\<close>.\<close>

record action =
  label :: string
  body :: "string option"

record notification =
  n_id :: string
  n_type :: ntype
  n_title :: string
  n_message :: string
  n_time :: int
  n_priority :: int
  n_actions :: "action list"
  n_reqId :: "string option"
  answered :: bool
  answeredWith :: "string option"

text \<open>\<^verbatim>\<open>x || d\<close> on an optional string or number: the empty string and 0 are falsy,
  like a missing value.\<close>

definition str_or :: "string option \<Rightarrow> string \<Rightarrow> string" where
  "str_or v d = (case v of None \<Rightarrow> d | Some s \<Rightarrow> if s = [] then d else s)"

definition num_or :: "int option \<Rightarrow> int \<Rightarrow> int" where
  "num_or v d = (case v of None \<Rightarrow> d | Some n \<Rightarrow> if n = 0 then d else n)"

section \<open>Message classifier\<close>

text \<open>
  \<^verbatim>\<open>detectType\<close>: \<^verbatim>\<open>tags = msg.tags || []\<close>, \<^verbatim>\<open>title = msg.title || ""\<close>, then the
  chain of \<^verbatim>\<open>if (...) return\<close> in the order of the source.
\<close>

definition tags_of :: "raw_message \<Rightarrow> string list" where
  "tags_of msg = (case m_tags msg of None \<Rightarrow> [] | Some ts \<Rightarrow> ts)"

definition title_of :: "raw_message \<Rightarrow> string" where
  "title_of msg = str_or (m_title msg) []"

definition detectType :: "raw_message \<Rightarrow> ntype" where
  "detectType msg =
     (let tags = tags_of msg; title = title_of msg in
      if ''lock'' \<in> set tags then Permission
      else if ''point_right'' \<in> set tags then Choice
      else if ''question'' \<in> set tags then Approve
      else if ''white_check_mark'' \<in> set tags then Done
      else if ''warning'' \<in> set tags then Decision
      else if str_includes title ''Permission'' then Permission
      else if str_includes title ''Vyber'' then Choice
      else if str_includes title ''Schvaleni'' then Approve
      else if str_includes title ''Hotovo'' then Done
      else Decision)"

text \<open>
  \<^verbatim>\<open>extractActions\<close>: no array gives the empty list; otherwise the entries whose kind is
  \<^verbatim>\<open>"http"\<close>, each reduced to its label and body.
\<close>

definition extractActions :: "raw_message \<Rightarrow> action list" where
  "extractActions msg =
     (case m_actions msg of
        None \<Rightarrow> []
      | Some as \<Rightarrow>
          map (\<lambda>a. \<lparr>label = ra_label a, body = ra_body a\<rparr>)
            (filter (\<lambda>a. ra_action a = ''http'') as))"

text \<open>
  The regular expression \<^verbatim>\<open>/_(\d+)$/\<close>. \<open>match_at\<close> tries it at the start of its
  argument: an underscore, then the longest run of digits (the quantifier is greedy), then
  the end of the input. Giving digits back cannot help, since the character after a shorter
  run is a digit and not the end. \<open>regex_search\<close> is \<^verbatim>\<open>String.prototype.match\<close>: the
  leftmost position where the expression matches, returning the group.
\<close>

definition is_digit :: "char \<Rightarrow> bool" where
  "is_digit c = (c \<in> set ''0123456789'')"

definition match_at :: "string \<Rightarrow> string option" where
  "match_at s =
     (case s of
        [] \<Rightarrow> None
      | c # rest \<Rightarrow>
          if c = CHR ''_'' then
            (let ds = takeWhile is_digit rest in
             if ds \<noteq> [] \<and> dropWhile is_digit rest = [] then Some ds else None)
          else None)"

fun regex_search :: "string \<Rightarrow> string option" where
  "regex_search [] = match_at []"
| "regex_search (c # cs) =
     (case match_at (c # cs) of Some g \<Rightarrow> Some g | None \<Rightarrow> regex_search cs)"

text \<open>
  \<^verbatim>\<open>extractReqId\<close>: \<^verbatim>\<open>null\<close> for no actions; otherwise the match on the first
  action's body. Calling \<^verbatim>\<open>.match\<close> on a missing body throws a TypeError.
\<close>

definition extractReqId :: "action list \<Rightarrow> js_error + string option" where
  "extractReqId actions =
     (case actions of
        [] \<Rightarrow> Inr None
      | a # _ \<Rightarrow> (case body a of None \<Rightarrow> Inl TypeError | Some b \<Rightarrow> Inr (regex_search b)))"

section \<open>Connection manager\<close>

text \<open>
  The module-level variables of \<^verbatim>\<open>Ntfy\<close> form the record \<open>ntfy_state\<close>. Every socket
  the module has created is numbered in the order of creation; \<open>sockets\<close> holds the
  \<^verbatim>\<open>readyState\<close> of each, and \<open>ws\<close> is the number of the socket the variable
  \<^verbatim>\<open>ws\<close> refers to (\<open>None\<close> while it is null). A socket that has been replaced keeps
  its handlers, which are closures over the same variables. A timer variable
  holds the pending timeout, with the time it was armed at and its delay in milliseconds;
  \<open>None\<close> means that no timeout is pending (clearing a timeout that has fired does nothing,
  so a fired timer is represented like a cleared one). What the module does to the outside
  is recorded in three logs: the statuses passed to the status callback, the \<^verbatim>\<open>since\<close>
  values of the catch-up queries, and the bodies posted to the reply topic. The status
  callback is the one the orchestrator registers.

  This is the module with the watchdog and the persisted mark. The repository also holds
  an earlier copy of it (\<^verbatim>\<open>src/js/ntfy.js\<close>) with the same classifier and the same
  \<^verbatim>\<open>respond\<close>, a ceiling of 30000 ms, and neither watchdog nor mark.

  \<open>stored_since\<close> is the entry of local storage under \<^verbatim>\<open>SINCE_KEY\<close>; writing and parsing
  an integer give the same integer back. \<open>storage_fails\<close> says whether \<^verbatim>\<open>setItem\<close>
  throws (the exception is swallowed by the source).
\<close>

datatype ready_state = CONNECTING | OPEN | CLOSING | CLOSED

datatype conn_status = Disconnected | Reconnecting | Connected

record timer =
  armed_at :: int
  delay :: int

record ntfy_state =
  sockets :: "ready_state list"
  ws :: "nat option"
  topic :: string
  replyTopic :: string
  reconnectDelay :: int
  reconnectTimer :: "timer option"
  intentionalClose :: bool
  lastSince :: "int option"
  watchdogTimer :: "timer option"
  stored_since :: "int option"
  storage_fails :: bool
  statuses :: "conn_status list"
  fetches :: "int list"
  posts :: "(string \<times> string) list"

definition MAX_RECONNECT_DELAY :: int where
  "MAX_RECONNECT_DELAY = 10000"

definition WATCHDOG_MS :: int where
  "WATCHDOG_MS = 55000"

text \<open>The state of the module when the script has been loaded.\<close>

definition ntfy_init :: ntfy_state where
  "ntfy_init = \<lparr>sockets = [], ws = None, topic = [], replyTopic = [], reconnectDelay = 1000,
     reconnectTimer = None, intentionalClose = False, lastSince = None,
     watchdogTimer = None, stored_since = None, storage_fails = False,
     statuses = [], fetches = [], posts = []\<rparr>"

definition loadLastSince :: "ntfy_state \<Rightarrow> ntfy_state" where
  "loadLastSince s = (case stored_since s of None \<Rightarrow> s | Some v \<Rightarrow> s\<lparr>lastSince := Some v\<rparr>)"

text \<open>\<^verbatim>\<open>_saveLastSince\<close>: \<^verbatim>\<open>if (!lastSince || ts > lastSince)\<close>.\<close>

definition saveLastSince :: "int \<Rightarrow> ntfy_state \<Rightarrow> ntfy_state" where
  "saveLastSince ts s =
     (let saved = s\<lparr>lastSince := Some ts,
                      stored_since := (if storage_fails s then stored_since s else Some ts)\<rparr>
      in case lastSince s of
           None \<Rightarrow> saved
         | Some v \<Rightarrow> if v = 0 \<or> ts > v then saved else s)"

definition setStatus :: "conn_status \<Rightarrow> ntfy_state \<Rightarrow> ntfy_state" where
  "setStatus st s = s\<lparr>statuses := statuses s @ [st]\<rparr>"

definition resetWatchdog :: "int \<Rightarrow> ntfy_state \<Rightarrow> ntfy_state" where
  "resetWatchdog now s = s\<lparr>watchdogTimer := Some \<lparr>armed_at = now, delay = WATCHDOG_MS\<rparr>\<rparr>"

definition clearWatchdog :: "ntfy_state \<Rightarrow> ntfy_state" where
  "clearWatchdog s = s\<lparr>watchdogTimer := None\<rparr>"

text \<open>\<^verbatim>\<open>ws.readyState\<close> of the current socket, and the browser changing a socket's state.\<close>

definition ready :: "ntfy_state \<Rightarrow> ready_state option" where
  "ready s =
     (case ws s of
        None \<Rightarrow> None
      | Some k \<Rightarrow> if k < length (sockets s) then Some (sockets s ! k) else None)"

definition set_ready :: "nat \<Rightarrow> ready_state \<Rightarrow> ntfy_state \<Rightarrow> ntfy_state" where
  "set_ready k r s = s\<lparr>sockets := (sockets s)[k := r]\<rparr>"

text \<open>
  \<^verbatim>\<open>if (ws) ws.close()\<close>: a socket that is connecting or open starts closing; its close
  event comes later. Closing a socket that is closing or closed does nothing.
\<close>

definition ws_close :: "ntfy_state \<Rightarrow> ntfy_state" where
  "ws_close s =
     (case ws s of
        None \<Rightarrow> s
      | Some k \<Rightarrow>
          if ready s = Some OPEN \<or> ready s = Some CONNECTING then set_ready k CLOSING s else s)"

text \<open>
  \<^verbatim>\<open>_fetchRecent\<close> up to its first \<^verbatim>\<open>await\<close>: the \<^verbatim>\<open>since\<close> parameter of the query.
  \<open>now\<close> is \<^verbatim>\<open>Date.now()\<close> in milliseconds.
\<close>

definition catchup_since :: "int \<Rightarrow> int option \<Rightarrow> int" where
  "catchup_since now ls =
     (let fallback = now div 1000 - 3600 in
      case ls of
        None \<Rightarrow> fallback
      | Some v \<Rightarrow> if v = 0 then fallback else max (v - 5) fallback)"

definition fetchRecent_start :: "int \<Rightarrow> ntfy_state \<Rightarrow> ntfy_state" where
  "fetchRecent_start now s = s\<lparr>fetches := fetches s @ [catchup_since now (lastSince s)]\<rparr>"

text \<open>
  \<^verbatim>\<open>_connect\<close>: nothing when the current socket is open or connecting; else a new
  socket, which \<^verbatim>\<open>ws\<close> then refers to, and a catch-up query.
\<close>

definition connect_socket :: "int \<Rightarrow> ntfy_state \<Rightarrow> ntfy_state" where
  "connect_socket now s =
     (if ready s = Some OPEN \<or> ready s = Some CONNECTING then s
      else fetchRecent_start now
             ((setStatus Reconnecting s)\<lparr>sockets := sockets s @ [CONNECTING],
                                            ws := Some (length (sockets s))\<rparr>))"

definition forceReconnect :: "int \<Rightarrow> ntfy_state \<Rightarrow> ntfy_state" where
  "forceReconnect now s = connect_socket now (s\<lparr>reconnectTimer := None, reconnectDelay := 1000\<rparr>)"

text \<open>\<^verbatim>\<open>connect(cfg)\<close>, and the two listeners it installs.\<close>

definition connect :: "string \<Rightarrow> string \<Rightarrow> int \<Rightarrow> ntfy_state \<Rightarrow> ntfy_state" where
  "connect tp rtp now s =
     connect_socket now
       (loadLastSince (s\<lparr>topic := tp, replyTopic := rtp, intentionalClose := False\<rparr>))"

definition on_visibilitychange :: "bool \<Rightarrow> int \<Rightarrow> ntfy_state \<Rightarrow> ntfy_state" where
  "on_visibilitychange visible now s =
     (if visible \<and> \<not> intentionalClose s \<and>
         (ws s = None \<or> ready s = Some CLOSED \<or> ready s = Some CLOSING)
      then forceReconnect now s else s)"

definition on_online :: "int \<Rightarrow> ntfy_state \<Rightarrow> ntfy_state" where
  "on_online now s = (if \<not> intentionalClose s then forceReconnect now s else s)"

text \<open>
  \<^verbatim>\<open>_scheduleReconnect\<close> arms the timer with the current delay. When the timer fires, at
  its deadline or \<open>late\<close> milliseconds after it, the callback doubles the delay up to the
  ceiling and connects.
\<close>

definition scheduleReconnect :: "int \<Rightarrow> ntfy_state \<Rightarrow> ntfy_state" where
  "scheduleReconnect now s =
     s\<lparr>reconnectTimer := Some \<lparr>armed_at = now, delay = reconnectDelay s\<rparr>\<rparr>"

definition reconnect_timer_fire :: "nat \<Rightarrow> ntfy_state \<Rightarrow> ntfy_state" where
  "reconnect_timer_fire late s =
     (case reconnectTimer s of
        None \<Rightarrow> s
      | Some t \<Rightarrow>
          connect_socket (armed_at t + delay t + int late)
            (s\<lparr>reconnectTimer := None,
               reconnectDelay := min (reconnectDelay s * 2) MAX_RECONNECT_DELAY\<rparr>))"

text \<open>The watchdog timeout fires when \<open>WATCHDOG_MS\<close> have passed since it was last armed.\<close>

definition watchdog_fire :: "ntfy_state \<Rightarrow> ntfy_state" where
  "watchdog_fire s =
     (case watchdogTimer s of
        None \<Rightarrow> s
      | Some t \<Rightarrow> ws_close (s\<lparr>watchdogTimer := None\<rparr>))"

text \<open>
  The handlers of socket number \<open>k\<close>, which need not be the current one. The socket is
  open, or closed, when its event is dispatched; the handler itself never looks at which
  socket it belongs to. The browser dispatches an open event to a connecting socket and a
  close event to a socket that is not closed yet.
\<close>

definition ws_onopen :: "nat \<Rightarrow> int \<Rightarrow> ntfy_state \<Rightarrow> ntfy_state" where
  "ws_onopen k now s =
     resetWatchdog now (setStatus Connected ((set_ready k OPEN s)\<lparr>reconnectDelay := 1000\<rparr>))"

definition ws_onclose :: "nat \<Rightarrow> int \<Rightarrow> ntfy_state \<Rightarrow> ntfy_state" where
  "ws_onclose k now s =
     (let s1 = clearWatchdog (set_ready k CLOSED s) in
      if intentionalClose s1 then s1
      else scheduleReconnect now (setStatus Disconnected s1))"

definition disconnect :: "ntfy_state \<Rightarrow> ntfy_state" where
  "disconnect s =
     setStatus Disconnected
       (ws_close ((clearWatchdog (s\<lparr>intentionalClose := True\<rparr>))\<lparr>reconnectTimer := None\<rparr>))"

text \<open>
  \<^verbatim>\<open>_processMessage\<close>. The only statement that can throw on a message of the feed's
  schema is \<^verbatim>\<open>extractReqId\<close>, before any state is changed. The result is the notification
  handed to the message callback and the new state.
\<close>

definition processMessage ::
  "int \<Rightarrow> raw_message \<Rightarrow> ntfy_state \<Rightarrow> js_error + (notification \<times> ntfy_state)" where
  "processMessage now msg s =
     (let type = detectType msg; actions = extractActions msg in
      case extractReqId actions of
        Inl e \<Rightarrow> Inl e
      | Inr reqId \<Rightarrow>
          Inr (\<lparr>n_id = str_or (m_id msg) (js_String now),
                n_type = type,
                n_title = str_or (m_title msg) [],
                n_message = str_or (m_message msg) [],
                n_time = (case m_time msg of
                            None \<Rightarrow> now
                          | Some t \<Rightarrow> if t = 0 then now else t * 1000),
                n_priority = num_or (m_priority msg) 3,
                n_actions = actions,
                n_reqId = reqId,
                answered = False,
                answeredWith = None\<rparr>,
               case m_time msg of
                 None \<Rightarrow> s
               | Some t \<Rightarrow> if t = 0 then s else saveLastSince t s))"

text \<open>
  An inbound frame or a line of the catch-up response either fails to parse or is a
  message object. \<^verbatim>\<open>msg.event && msg.event !== "message"\<close> skips keepalive and open
  frames.
\<close>

datatype frame = Unparseable | Parsed raw_message

definition skip_event :: "raw_message \<Rightarrow> bool" where
  "skip_event msg = (case m_event msg of None \<Rightarrow> False | Some e \<Rightarrow> e \<noteq> [] \<and> e \<noteq> ''message'')"

text \<open>The body of the \<^verbatim>\<open>try\<close> shared by both paths; an exception drops the frame.\<close>

definition ingest :: "int \<Rightarrow> frame \<Rightarrow> ntfy_state \<Rightarrow> notification option \<times> ntfy_state" where
  "ingest now fr s =
     (case fr of
        Unparseable \<Rightarrow> (None, s)
      | Parsed msg \<Rightarrow>
          if skip_event msg then (None, s)
          else (case processMessage now msg s of
                  Inl e \<Rightarrow> (None, s)
                | Inr (n, s') \<Rightarrow> (Some n, s')))"

definition ws_onmessage :: "int \<Rightarrow> frame \<Rightarrow> ntfy_state \<Rightarrow> notification option \<times> ntfy_state" where
  "ws_onmessage now fr s = ingest now fr (resetWatchdog now s)"

text \<open>
  The rest of \<^verbatim>\<open>_fetchRecent\<close>, run when the query settles: nothing on a rejected request
  or a status outside 200..299, else every non-empty line in order.
\<close>

datatype poll_outcome = PollRejected | PollResponse nat "frame list"

fun ingest_lines :: "int \<Rightarrow> frame list \<Rightarrow> ntfy_state \<Rightarrow> notification list \<times> ntfy_state" where
  "ingest_lines now [] s = ([], s)"
| "ingest_lines now (fr # frs) s =
     (let (n, s1) = ingest now fr s; (ns, s2) = ingest_lines now frs s1
      in ((case n of None \<Rightarrow> [] | Some x \<Rightarrow> [x]) @ ns, s2))"

definition fetchRecent_settled ::
  "int \<Rightarrow> poll_outcome \<Rightarrow> ntfy_state \<Rightarrow> notification list \<times> ntfy_state" where
  "fetchRecent_settled now r s =
     (case r of
        PollRejected \<Rightarrow> ([], s)
      | PollResponse st lines \<Rightarrow>
          if 200 \<le> st \<and> st \<le> 299 then ingest_lines now lines s else ([], s))"

text \<open>
  A delivery is one run of one of the two ingestion paths: a frame on the live socket, or
  the settling of a catch-up query. \<open>deliveries\<close> runs a sequence of them in order and
  collects the notifications handed to the message callback, in the order of the calls.
\<close>

datatype delivery = Live int frame | CatchUp int poll_outcome

definition deliver :: "delivery \<Rightarrow> ntfy_state \<Rightarrow> notification list \<times> ntfy_state" where
  "deliver d s =
     (case d of
        Live now fr \<Rightarrow>
          (let (n, s') = ws_onmessage now fr s in ((case n of None \<Rightarrow> [] | Some x \<Rightarrow> [x]), s'))
      | CatchUp now r \<Rightarrow> fetchRecent_settled now r s)"

fun deliveries :: "delivery list \<Rightarrow> ntfy_state \<Rightarrow> notification list \<times> ntfy_state" where
  "deliveries [] s = ([], s)"
| "deliveries (d # ds) s =
     (let (ns1, s1) = deliver d s; (ns2, s2) = deliveries ds s1 in (ns1 @ ns2, s2))"

text \<open>
  \<^verbatim>\<open>respond\<close>: one POST of the body to the reply topic. The function returns true when
  the request resolves, whatever its status, and false when it rejects. \<open>respond_send\<close> is
  the call of \<^verbatim>\<open>fetch\<close>, \<open>respond_returns\<close> the value returned once the request has
  settled. In \<open>respond\<close> the environment is a function giving the outcome of the k-th POST.
\<close>

datatype http_outcome = Rejected | Resolved nat

definition respond_send :: "string \<Rightarrow> ntfy_state \<Rightarrow> ntfy_state" where
  "respond_send b s = s\<lparr>posts := posts s @ [(replyTopic s, b)]\<rparr>"

definition respond_returns :: "http_outcome \<Rightarrow> bool" where
  "respond_returns oc = (case oc of Rejected \<Rightarrow> False | Resolved st \<Rightarrow> True)"

definition respond :: "(nat \<Rightarrow> http_outcome) \<Rightarrow> string \<Rightarrow> ntfy_state \<Rightarrow> bool \<times> ntfy_state" where
  "respond net b s = (respond_returns (net (length (posts s))), respond_send b s)"

text \<open>
  Vocabulary for the high-water mark. \<open>since_le\<close> compares two optional timestamps, a
  missing one being below every timestamp. \<open>hwm_inv\<close> holds of the state \<^verbatim>\<open>connect\<close>
  leaves behind: the variable is not 0, and the stored entry is not ahead of the variable.
  \<open>carried_time\<close> is the origin time of a frame that is classified without an exception
  and carries a time; \<open>ingested_times\<close> lists these times for a sequence of deliveries.
\<close>

definition since_le :: "int option \<Rightarrow> int option \<Rightarrow> bool" where
  "since_le a b =
     (case a of None \<Rightarrow> True | Some x \<Rightarrow> (case b of None \<Rightarrow> False | Some y \<Rightarrow> x \<le> y))"

definition hwm_inv :: "ntfy_state \<Rightarrow> bool" where
  "hwm_inv s = (lastSince s \<noteq> Some 0 \<and> since_le (stored_since s) (lastSince s))"

definition carried_time :: "frame \<Rightarrow> int option" where
  "carried_time fr =
     (case fr of
        Unparseable \<Rightarrow> None
      | Parsed msg \<Rightarrow>
          if skip_event msg then None
          else (case extractReqId (extractActions msg) of
                  Inl e \<Rightarrow> None
                | Inr r \<Rightarrow> (case m_time msg of None \<Rightarrow> None | Some t \<Rightarrow> if t = 0 then None else Some t)))"

definition delivery_frames :: "delivery \<Rightarrow> frame list" where
  "delivery_frames d =
     (case d of
        Live now fr \<Rightarrow> [fr]
      | CatchUp now PollRejected \<Rightarrow> []
      | CatchUp now (PollResponse st lines) \<Rightarrow> if 200 \<le> st \<and> st \<le> 299 then lines else [])"

definition ingested_times :: "delivery list \<Rightarrow> int list" where
  "ingested_times ds = List.map_filter carried_time (concat (map delivery_frames ds))"

text \<open>
  \<open>hwm_advance ts s s'\<close>: going from \<open>s\<close> to \<open>s'\<close> while ingesting the times \<open>ts\<close>, neither
  the variable nor the stored entry moved back, the variable is at least every ingested
  time, and it is the old value or one of the ingested times; the stored entry is the old
  one when the variable did not move or storage cannot be written, and the new value of
  the variable otherwise.
\<close>

definition hwm_advance :: "int list \<Rightarrow> ntfy_state \<Rightarrow> ntfy_state \<Rightarrow> bool" where
  "hwm_advance ts s s' =
     (hwm_inv s' \<and>
      since_le (lastSince s) (lastSince s') \<and>
      since_le (stored_since s) (stored_since s') \<and>
      list_all (\<lambda>t. since_le (Some t) (lastSince s')) ts \<and>
      (lastSince s' = lastSince s \<or> list_ex (\<lambda>t. lastSince s' = Some t) ts) \<and>
      storage_fails s' = storage_fails s \<and>
      stored_since s' =
        (if storage_fails s \<or> lastSince s' = lastSince s then stored_since s else lastSince s'))"

text \<open>
  The close event of the current socket, and consecutive failed attempts: each entry is
  an unexpected close of the current socket at the given time, followed by the reconnect
  timer firing (so many milliseconds late), which starts the next attempt. No socket opens
  in between.
\<close>

definition close_current :: "int \<Rightarrow> ntfy_state \<Rightarrow> ntfy_state" where
  "close_current tc s = (case ws s of None \<Rightarrow> s | Some k \<Rightarrow> ws_onclose k tc s)"

fun failed_attempts :: "(int \<times> nat) list \<Rightarrow> ntfy_state \<Rightarrow> ntfy_state" where
  "failed_attempts [] s = s"
| "failed_attempts ((tc, late) # cs) s =
     failed_attempts cs (reconnect_timer_fire late (close_current tc s))"

text \<open>
  The time of the last activity on the socket after it opened at \<open>t\<close>: the time of the
  last frame among the deliveries, frames of the live path only.
\<close>

fun last_activity :: "int \<Rightarrow> delivery list \<Rightarrow> int" where
  "last_activity t [] = t"
| "last_activity t (Live now fr # ds) = last_activity now ds"
| "last_activity t (CatchUp now r # ds) = last_activity t ds"

text \<open>The variables of the reconnect policy, which ingesting messages leaves alone.\<close>

definition conn_fields ::
  "ntfy_state \<Rightarrow>
     ready_state list \<times> nat option \<times> int \<times> timer option \<times> bool \<times> conn_status list" where
  "conn_fields s =
     (sockets s, ws s, reconnectDelay s, reconnectTimer s, intentionalClose s, statuses s)"

section \<open>Orchestrator\<close>

text \<open>
  The state of \<^verbatim>\<open>App\<close>. \<^verbatim>\<open>notifications\<close> is an array of objects, and
  \<^verbatim>\<open>handleResponse\<close> keeps a reference to one of them across its \<^verbatim>\<open>await\<close>s; to tell
  objects apart each one is stored with a reference number, given out in order by
  \<open>next_ref\<close>. \<^verbatim>\<open>seenIds\<close> is a JavaScript \<^verbatim>\<open>Set\<close>, which keeps insertion order:
  a list without repetitions. \<open>can_vibrate\<close> says whether \<^verbatim>\<open>navigator.vibrate\<close> exists.
  Everything the orchestrator does to the page, the device and local storage is appended
  to \<open>effects\<close>.

  \<^verbatim>\<open>saveSeen\<close> and \<^verbatim>\<open>saveHistory\<close> call \<^verbatim>\<open>localStorage.setItem\<close> with no
  \<^verbatim>\<open>try\<close> around it. \<open>seen_write_throws\<close> and \<open>history_write_throws\<close> say whether
  the write of the one and of the other entry throws (the quota is exceeded, or storage is
  switched off). An exception leaves the function that is running; what it had done before
  stays done. The functions below return the exception, if any, with the state.
\<close>

datatype effect =
    SaveSeen "string list"
  | Vibrate
  | Beep
  | RenderDashboard "notification list"
  | RenderThrew "notification list"
  | SaveHistory "notification list"
  | Sleep int

record app_state =
  notifications :: "(nat \<times> notification) list"
  next_ref :: nat
  seenIds :: "string list"
  vibrate :: bool
  sound :: bool
  can_vibrate :: bool
  seen_write_throws :: bool
  history_write_throws :: bool
  effects :: "effect list"

definition MAX_HISTORY :: nat where
  "MAX_HISTORY = 100"

definition emit :: "effect \<Rightarrow> app_state \<Rightarrow> app_state" where
  "emit e s = s\<lparr>effects := effects s @ [e]\<rparr>"

text \<open>\<^verbatim>\<open>saveSeen\<close> stores the last 200 ids; \<^verbatim>\<open>saveHistory\<close> the first 100 notifications.\<close>

definition saveSeen :: "app_state \<Rightarrow> js_error option \<times> app_state" where
  "saveSeen s =
     (if seen_write_throws s then (Some QuotaExceededError, s)
      else (None, emit (SaveSeen (drop (length (seenIds s) - 200) (seenIds s))) s))"

definition saveHistory :: "app_state \<Rightarrow> js_error option \<times> app_state" where
  "saveHistory s =
     (if history_write_throws s then (Some QuotaExceededError, s)
      else (None, emit (SaveHistory (take MAX_HISTORY (map snd (notifications s)))) s))"

definition is_actionable :: "ntype \<Rightarrow> bool" where
  "is_actionable ty = (ty = Approve \<or> ty = Permission \<or> ty = Choice)"

text \<open>
  \<^verbatim>\<open>renderDashboard\<close> builds a card for every pending notification (not answered, and an
  approval, permission or choice), then one for every other notification. For a pending
  approval or permission \<^verbatim>\<open>UI.createCard\<close> calls \<^verbatim>\<open>buildApproveActions\<close>, whose two
  \<^verbatim>\<open>actions.find((a) => a.body.startsWith(...))\<close> throw a TypeError on reaching an
  action without body before a match. \<open>find_throws\<close> is one such search. When a card
  throws, the cards of the pending notifications before it have been put on the page and
  the rest of the dashboard is left as it was.
\<close>

fun find_throws :: "string \<Rightarrow> action list \<Rightarrow> bool" where
  "find_throws p [] = False"
| "find_throws p (a # as) =
     (case body a of
        None \<Rightarrow> True
      | Some b \<Rightarrow> if starts_with b p then False else find_throws p as)"

definition card_throws :: "notification \<Rightarrow> bool" where
  "card_throws n =
     (\<not> answered n \<and> (n_type n = Approve \<or> n_type n = Permission) \<and>
      (find_throws ''OK_'' (n_actions n) \<or> find_throws ''NOK_'' (n_actions n)))"

definition pending_of :: "notification list \<Rightarrow> notification list" where
  "pending_of ns = filter (\<lambda>n. \<not> answered n \<and> is_actionable (n_type n)) ns"

definition renderDashboard :: "app_state \<Rightarrow> js_error option \<times> app_state" where
  "renderDashboard s =
     (let ns = map snd (notifications s); p = pending_of ns in
      if list_ex card_throws p
      then (Some TypeError, emit (RenderThrew (takeWhile (\<lambda>n. \<not> card_throws n) p)) s)
      else (None, emit (RenderDashboard ns) s))"

text \<open>\<^verbatim>\<open>notifications.find((n) => n.id === i)\<close>: the first object with that id.\<close>

definition find_notification :: "string \<Rightarrow> app_state \<Rightarrow> (nat \<times> notification) option" where
  "find_notification i s = List.find (\<lambda>(r, n). n_id n = i) (notifications s)"

definition haptic :: "app_state \<Rightarrow> app_state" where
  "haptic s =
     (let s1 = (if vibrate s \<and> can_vibrate s then emit Vibrate s else s)
      in if sound s1 then emit Beep s1 else s1)"

text \<open>
  \<^verbatim>\<open>handleMessage\<close>, the callback registered with the connection manager. An exception
  thrown in it is caught by the \<^verbatim>\<open>try\<close> around \<^verbatim>\<open>_processMessage\<close> on either path, so
  the next notification is handled in the state the exception left.
\<close>

definition handleMessage :: "notification \<Rightarrow> app_state \<Rightarrow> js_error option \<times> app_state" where
  "handleMessage n s =
     (if n_id n \<in> set (seenIds s) then (None, s)
      else
        case saveSeen (s\<lparr>seenIds := seenIds s @ [n_id n]\<rparr>) of
          (Some e, s1) \<Rightarrow> (Some e, s1)
        | (None, s1) \<Rightarrow>
            (case find_notification (n_id n) s1 of
               Some existing \<Rightarrow> (None, s1)
             | None \<Rightarrow>
                 let s2 = s1\<lparr>notifications := (next_ref s1, n) # notifications s1,
                             next_ref := Suc (next_ref s1)\<rparr>;
                     s3 = (if is_actionable (n_type n) then haptic s2 else s2)
                 in case renderDashboard s3 of
                      (Some e, s4) \<Rightarrow> (Some e, s4)
                    | (None, s4) \<Rightarrow> saveHistory s4))"

fun handle_all :: "notification list \<Rightarrow> app_state \<Rightarrow> app_state" where
  "handle_all [] s = s"
| "handle_all (n # ns) s = handle_all ns (snd (handleMessage n s))"

text \<open>
  The two modules together. The connection manager calls the message callback inside
  \<^verbatim>\<open>_processMessage\<close>; the callback does not touch the manager's variables and the
  manager does not touch the orchestrator's, so a sequence of deliveries is the manager's
  run followed by the callback on each notification handed over, in order.
\<close>

record world =
  nt :: ntfy_state
  ap :: app_state

definition world_deliver :: "delivery list \<Rightarrow> world \<Rightarrow> world" where
  "world_deliver ds w =
     (let (ns, s') = deliveries ds (nt w) in \<lparr>nt = s', ap = handle_all ns (ap w)\<rparr>)"

text \<open>
  \<^verbatim>\<open>handleResponse\<close>. \<open>mark_answered\<close> is the pair of assignments to the object the
  function found at its start.
\<close>

definition mark_answered :: "nat \<Rightarrow> string \<Rightarrow> app_state \<Rightarrow> app_state" where
  "mark_answered r b s =
     s\<lparr>notifications :=
         map (\<lambda>(i, n). if i = r then (i, n\<lparr>answered := True, answeredWith := Some b\<rparr>) else (i, n))
           (notifications s)\<rparr>"

text \<open>
  The end of \<^verbatim>\<open>handleResponse\<close>: the two assignments, \<^verbatim>\<open>saveHistory()\<close>, then
  \<^verbatim>\<open>renderDashboard()\<close>. An exception here rejects the promise of the call, which nobody
  looks at.
\<close>

definition hr_finish :: "nat \<Rightarrow> string \<Rightarrow> world \<Rightarrow> world" where
  "hr_finish r b w =
     w\<lparr>ap := (case saveHistory (mark_answered r b (ap w)) of
                  (Some e, a) \<Rightarrow> a
                | (None, a) \<Rightarrow> snd (renderDashboard a))\<rparr>"

text \<open>
  The function run with nothing else happening in between; \<open>net\<close> gives the outcome of
  the k-th POST. The result of the second \<^verbatim>\<open>respond\<close> is not looked at, and the
  function returns no value.
\<close>

definition handleResponse :: "(nat \<Rightarrow> http_outcome) \<Rightarrow> string \<Rightarrow> string \<Rightarrow> world \<Rightarrow> world" where
  "handleResponse net notifId b w =
     (case find_notification notifId (ap w) of
        None \<Rightarrow> w
      | Some (r, n) \<Rightarrow>
          if answered n then w
          else
            let (ok, s1) = respond net b (nt w);
                w1 = w\<lparr>nt := s1\<rparr>;
                w2 = (if \<not> ok
                      then (let w' = w1\<lparr>ap := emit (Sleep 1000) (ap w1)\<rparr>
                            in w'\<lparr>nt := snd (respond net b (nt w'))\<rparr>)
                      else w1)
            in hr_finish r b w2)"

text \<open>
  The same function cut at its \<^verbatim>\<open>await\<close>s. Between two pieces other handlers may run.
  What is kept across an \<^verbatim>\<open>await\<close> is the reference to the notification object and the
  body; the function is woken by the POST settling or by the one-second timer.
\<close>

datatype hr_cont = AwaitFirst nat string | AwaitDelay nat string | AwaitSecond nat string

datatype wake = Settled http_outcome | Elapsed

definition hr_begin :: "string \<Rightarrow> string \<Rightarrow> world \<Rightarrow> hr_cont option \<times> world" where
  "hr_begin notifId b w =
     (case find_notification notifId (ap w) of
        None \<Rightarrow> (None, w)
      | Some (r, n) \<Rightarrow>
          if answered n then (None, w)
          else (Some (AwaitFirst r b), w\<lparr>nt := respond_send b (nt w)\<rparr>))"

fun hr_resume :: "hr_cont \<Rightarrow> wake \<Rightarrow> world \<Rightarrow> hr_cont option \<times> world" where
  "hr_resume (AwaitFirst r b) (Settled oc) w =
     (if respond_returns oc then (None, hr_finish r b w)
      else (Some (AwaitDelay r b), w\<lparr>ap := emit (Sleep 1000) (ap w)\<rparr>))"
| "hr_resume (AwaitDelay r b) Elapsed w =
     (Some (AwaitSecond r b), w\<lparr>nt := respond_send b (nt w)\<rparr>)"
| "hr_resume (AwaitSecond r b) (Settled oc) w = (None, hr_finish r b w)"
| "hr_resume c wk w = (Some c, w)"

text \<open>The \<^verbatim>\<open>(answered, answeredWith)\<close> pair of the notification with a given id.\<close>

definition answer_pair :: "string \<Rightarrow> world \<Rightarrow> (bool \<times> string option) option" where
  "answer_pair i w =
     (case find_notification i (ap w) of
        None \<Rightarrow> None
      | Some (r, n) \<Rightarrow> Some (answered n, answeredWith n))"

text \<open>
  Two counts for a message id: the stored notifications with that id, and the times a
  notification with that id was presented, that is, the dashboard was rendered in full
  with it as the newest entry (\<^verbatim>\<open>handleMessage\<close> renders right after putting the
  notification in front).
\<close>

definition stored_count :: "string \<Rightarrow> app_state \<Rightarrow> nat" where
  "stored_count i s = length (filter (\<lambda>(r, n). n_id n = i) (notifications s))"

definition presents :: "string \<Rightarrow> effect \<Rightarrow> bool" where
  "presents i e = (case e of RenderDashboard (n # ns) \<Rightarrow> n_id n = i | _ \<Rightarrow> False)"

definition presented_count :: "string \<Rightarrow> app_state \<Rightarrow> nat" where
  "presented_count i s = length (filter (presents i) (effects s))"

text \<open>The orchestrator before anything is loaded, with the default feedback settings.\<close>

definition app_init :: app_state where
  "app_init = \<lparr>notifications = [], next_ref = 0, seenIds = [], vibrate = True, sound = True,
     can_vibrate = True, seen_write_throws = False, history_write_throws = False,
     effects = []\<rparr>"

section \<open>Properties of the classifier\<close>

lemma starts_with_iff: "starts_with s p \<longleftrightarrow> (\<exists>b. s = p @ b)"
  by (induction s p rule: starts_with.induct) auto

lemma str_includes_iff: "str_includes s p \<longleftrightarrow> (\<exists>a b. s = a @ p @ b)"
proof (induction s)
  case Nil
  then show ?case by auto
next
  case (Cons c cs)
  show ?case
  proof
    assume "str_includes (c # cs) p"
    then consider "starts_with (c # cs) p" | "str_includes cs p" by auto
    then show "\<exists>a b. c # cs = a @ p @ b"
    proof cases
      case 1
      then obtain b where "c # cs = p @ b" using starts_with_iff by blast
      then have "c # cs = [] @ p @ b" by simp
      then show ?thesis by blast
    next
      case 2
      then obtain a b where "cs = a @ p @ b" using Cons.IH by blast
      then have "c # cs = (c # a) @ p @ b" by simp
      then show ?thesis by blast
    qed
  next
    assume "\<exists>a b. c # cs = a @ p @ b"
    then obtain a b where ab: "c # cs = a @ p @ b" by blast
    show "str_includes (c # cs) p"
    proof (cases a)
      case Nil
      with ab have "starts_with (c # cs) p" using starts_with_iff by auto
      then show ?thesis by simp
    next
      case (Cons x a')
      with ab have "cs = a' @ p @ b" by simp
      then have "str_includes cs p" using Cons.IH by blast
      then show ?thesis by simp
    qed
  qed
qed

lemma match_at_Cons:
  "match_at (c # rest) =
     (if c = CHR ''_'' \<and> rest \<noteq> [] \<and> list_all is_digit rest then Some rest else None)"
proof (cases "list_all is_digit rest")
  case True
  then have tw: "takeWhile is_digit rest = rest"
    by (simp add: list_all_iff)
  from True have dw: "dropWhile is_digit rest = []"
    by (simp add: list_all_iff)
  show ?thesis
    by (simp add: match_at_def Let_def tw dw True
        del: takeWhile_eq_all_conv dropWhile_eq_Nil_conv)
next
  case False
  then have dw: "dropWhile is_digit rest \<noteq> []"
    by (simp add: list_all_iff)
  show ?thesis
    using False dw by (simp add: match_at_def Let_def del: dropWhile_eq_Nil_conv)
qed

lemma match_at_iff:
  "match_at s = Some ds \<longleftrightarrow> (s = CHR ''_'' # ds \<and> ds \<noteq> [] \<and> list_all is_digit ds)"
  by (cases s) (auto simp: match_at_Cons, simp add: match_at_def)

lemma underscore_not_digit: "\<not> is_digit CHR ''_''"
  by (simp add: is_digit_def)

text \<open>
  The search succeeds with group \<open>ds\<close> exactly when the string ends in an underscore
  followed by the non-empty digit string \<open>ds\<close>.
\<close>

lemma regex_search_iff:
  "regex_search s = Some ds \<longleftrightarrow>
     (\<exists>p. s = p @ CHR ''_'' # ds \<and> ds \<noteq> [] \<and> list_all is_digit ds)"
proof (induction s)
  case Nil
  then show ?case by (simp add: match_at_def)
next
  case (Cons c cs)
  show ?case
  proof (cases "match_at (c # cs)")
    case None
    then have no: "\<not> (c # cs = CHR ''_'' # ds \<and> ds \<noteq> [] \<and> list_all is_digit ds)"
      using match_at_iff [of "c # cs" ds] by simp
    have "regex_search (c # cs) = Some ds \<longleftrightarrow> regex_search cs = Some ds"
      using None by simp
    also have "\<dots> \<longleftrightarrow> (\<exists>p. cs = p @ CHR ''_'' # ds \<and> ds \<noteq> [] \<and> list_all is_digit ds)"
      by (rule Cons.IH)
    also have "\<dots> \<longleftrightarrow> (\<exists>p. c # cs = p @ CHR ''_'' # ds \<and> ds \<noteq> [] \<and> list_all is_digit ds)"
    proof
      assume "\<exists>p. cs = p @ CHR ''_'' # ds \<and> ds \<noteq> [] \<and> list_all is_digit ds"
      then obtain p where "cs = p @ CHR ''_'' # ds" "ds \<noteq> []" "list_all is_digit ds"
        by blast
      then have "c # cs = (c # p) @ CHR ''_'' # ds \<and> ds \<noteq> [] \<and> list_all is_digit ds"
        by simp
      then show "\<exists>p. c # cs = p @ CHR ''_'' # ds \<and> ds \<noteq> [] \<and> list_all is_digit ds"
        by blast
    next
      assume "\<exists>p. c # cs = p @ CHR ''_'' # ds \<and> ds \<noteq> [] \<and> list_all is_digit ds"
      then obtain p where p: "c # cs = p @ CHR ''_'' # ds" "ds \<noteq> []" "list_all is_digit ds"
        by blast
      with no obtain x p' where "p = x # p'" by (cases p) auto
      with p have "cs = p' @ CHR ''_'' # ds \<and> ds \<noteq> [] \<and> list_all is_digit ds" by simp
      then show "\<exists>p. cs = p @ CHR ''_'' # ds \<and> ds \<noteq> [] \<and> list_all is_digit ds"
        by blast
    qed
    finally show ?thesis .
  next
    case (Some g)
    then have g: "c # cs = CHR ''_'' # g" "g \<noteq> []" "list_all is_digit g"
      using match_at_iff [of "c # cs" g] by simp_all
    have rs: "regex_search (c # cs) = Some g" using Some by simp
    show ?thesis
    proof
      assume "regex_search (c # cs) = Some ds"
      with rs have "ds = g" by simp
      with g have "c # cs = [] @ CHR ''_'' # ds \<and> ds \<noteq> [] \<and> list_all is_digit ds"
        by simp
      then show "\<exists>p. c # cs = p @ CHR ''_'' # ds \<and> ds \<noteq> [] \<and> list_all is_digit ds"
        by blast
    next
      assume "\<exists>p. c # cs = p @ CHR ''_'' # ds \<and> ds \<noteq> [] \<and> list_all is_digit ds"
      then obtain p where p: "c # cs = p @ CHR ''_'' # ds" "ds \<noteq> []" "list_all is_digit ds"
        by blast
      have "p = []"
      proof (cases p)
        case Nil
        then show ?thesis .
      next
        case (Cons x p')
        with p g have "g = p' @ CHR ''_'' # ds" by simp
        then have "CHR ''_'' \<in> set g" by simp
        with g(3) have "is_digit CHR ''_''" by (simp add: list_all_iff)
        with underscore_not_digit show ?thesis by simp
      qed
      with p g have "ds = g" by simp
      with rs show "regex_search (c # cs) = Some ds" by simp
    qed
  qed
qed

text \<open>
  C8. Classification follows the tag markers in the order lock, point_right, question,
  white_check_mark, warning, the first one present deciding the type: permission, choice,
  approve, done, decision. A message with none of the markers (an untagged message among
  them) whose title contains "Permission" is a permission; a message with none of the
  markers and none of the title keywords is a decision.
\<close>

theorem detectType_precedence:
  "(''lock'' \<in> set (tags_of msg) \<longrightarrow> detectType msg = Permission) \<and>
   (''lock'' \<notin> set (tags_of msg) \<and> ''point_right'' \<in> set (tags_of msg) \<longrightarrow>
      detectType msg = Choice) \<and>
   (''lock'' \<notin> set (tags_of msg) \<and> ''point_right'' \<notin> set (tags_of msg) \<and>
    ''question'' \<in> set (tags_of msg) \<longrightarrow> detectType msg = Approve) \<and>
   (''lock'' \<notin> set (tags_of msg) \<and> ''point_right'' \<notin> set (tags_of msg) \<and>
    ''question'' \<notin> set (tags_of msg) \<and> ''white_check_mark'' \<in> set (tags_of msg) \<longrightarrow>
      detectType msg = Done) \<and>
   (''lock'' \<notin> set (tags_of msg) \<and> ''point_right'' \<notin> set (tags_of msg) \<and>
    ''question'' \<notin> set (tags_of msg) \<and> ''white_check_mark'' \<notin> set (tags_of msg) \<and>
    ''warning'' \<in> set (tags_of msg) \<longrightarrow> detectType msg = Decision) \<and>
   ((m_tags msg = None \<or> m_tags msg = Some []) \<and>
    (\<exists>a b. m_title msg = Some (a @ ''Permission'' @ b)) \<longrightarrow> detectType msg = Permission) \<and>
   (set (tags_of msg) \<inter>
      {''lock'', ''point_right'', ''question'', ''white_check_mark'', ''warning''} = {} \<and>
    (\<exists>a b. title_of msg = a @ ''Permission'' @ b) \<longrightarrow> detectType msg = Permission) \<and>
   (set (tags_of msg) \<inter>
      {''lock'', ''point_right'', ''question'', ''white_check_mark'', ''warning''} = {} \<and>
    (\<forall>k \<in> {''Permission'', ''Vyber'', ''Schvaleni'', ''Hotovo''}.
       \<nexists>a b. title_of msg = a @ k @ b) \<longrightarrow> detectType msg = Decision)"
proof -
  have untagged: "tags_of msg = []" if "m_tags msg = None \<or> m_tags msg = Some []"
    using that by (auto simp: tags_of_def)
  have title: "title_of msg = a @ ''Permission'' @ b"
    if "m_title msg = Some (a @ ''Permission'' @ b)" for a b
    using that by (simp add: title_of_def str_or_def)
  have "(m_tags msg = None \<or> m_tags msg = Some []) \<and>
        (\<exists>a b. m_title msg = Some (a @ ''Permission'' @ b)) \<longrightarrow> detectType msg = Permission"
  proof
    assume h: "(m_tags msg = None \<or> m_tags msg = Some []) \<and>
               (\<exists>a b. m_title msg = Some (a @ ''Permission'' @ b))"
    then have "tags_of msg = []" using untagged by blast
    moreover from h have "str_includes (title_of msg) ''Permission''"
      using title str_includes_iff by blast
    ultimately show "detectType msg = Permission"
      by (simp add: detectType_def Let_def)
  qed
  moreover have "set (tags_of msg) \<inter>
      {''lock'', ''point_right'', ''question'', ''white_check_mark'', ''warning''} = {} \<and>
    (\<exists>a b. title_of msg = a @ ''Permission'' @ b) \<longrightarrow> detectType msg = Permission"
    by (auto simp: detectType_def Let_def str_includes_iff)
  moreover have "set (tags_of msg) \<inter>
      {''lock'', ''point_right'', ''question'', ''white_check_mark'', ''warning''} = {} \<and>
    (\<forall>k \<in> {''Permission'', ''Vyber'', ''Schvaleni'', ''Hotovo''}.
       \<nexists>a b. title_of msg = a @ k @ b) \<longrightarrow> detectType msg = Decision"
    by (simp add: detectType_def Let_def str_includes_iff)
  ultimately show ?thesis
    by (simp add: detectType_def Let_def)
qed

theorem detectType_precedence_witness:
  "detectType \<lparr>m_id = Some ''m1'', m_event = None, m_title = Some ''Build'',
      m_message = None, m_time = None, m_priority = None,
      m_tags = Some [''warning'', ''question'', ''lock''], m_actions = None\<rparr> = Permission \<and>
   detectType \<lparr>m_id = Some ''m2'', m_event = None, m_title = Some ''Hotovo'',
      m_message = None, m_time = None, m_priority = None,
      m_tags = Some [''white_check_mark'', ''point_right''], m_actions = None\<rparr> = Choice \<and>
   detectType \<lparr>m_id = Some ''m3'', m_event = None, m_title = Some ''Permission'',
      m_message = None, m_time = None, m_priority = None,
      m_tags = Some [''warning'', ''question''], m_actions = None\<rparr> = Approve \<and>
   detectType \<lparr>m_id = Some ''m4'', m_event = None, m_title = Some ''Vyber'',
      m_message = None, m_time = None, m_priority = None,
      m_tags = Some [''warning'', ''white_check_mark''], m_actions = None\<rparr> = Done \<and>
   detectType \<lparr>m_id = Some ''m5'', m_event = None, m_title = Some ''Hotovo'',
      m_message = None, m_time = None, m_priority = None,
      m_tags = Some [''tada'', ''warning''], m_actions = None\<rparr> = Decision \<and>
   detectType \<lparr>m_id = Some ''m6'', m_event = None, m_title = Some ''[app] Permission needed'',
      m_message = None, m_time = None, m_priority = None,
      m_tags = None, m_actions = None\<rparr> = Permission \<and>
   detectType \<lparr>m_id = Some ''m7'', m_event = None, m_title = Some ''[app] Permission needed'',
      m_message = None, m_time = None, m_priority = None,
      m_tags = Some [''tada''], m_actions = None\<rparr> = Permission \<and>
   detectType \<lparr>m_id = Some ''m8'', m_event = None, m_title = Some ''Build finished'',
      m_message = None, m_time = None, m_priority = None,
      m_tags = Some [''tada''], m_actions = None\<rparr> = Decision"
proof -
  let ?m1 = "\<lparr>m_id = Some ''m1'', m_event = None, m_title = Some ''Build'',
      m_message = None, m_time = None, m_priority = None,
      m_tags = Some [''warning'', ''question'', ''lock''], m_actions = None\<rparr>"
  let ?m2 = "\<lparr>m_id = Some ''m2'', m_event = None, m_title = Some ''Hotovo'',
      m_message = None, m_time = None, m_priority = None,
      m_tags = Some [''white_check_mark'', ''point_right''], m_actions = None\<rparr>"
  let ?m3 = "\<lparr>m_id = Some ''m3'', m_event = None, m_title = Some ''Permission'',
      m_message = None, m_time = None, m_priority = None,
      m_tags = Some [''warning'', ''question''], m_actions = None\<rparr>"
  let ?m4 = "\<lparr>m_id = Some ''m4'', m_event = None, m_title = Some ''Vyber'',
      m_message = None, m_time = None, m_priority = None,
      m_tags = Some [''warning'', ''white_check_mark''], m_actions = None\<rparr>"
  let ?m5 = "\<lparr>m_id = Some ''m5'', m_event = None, m_title = Some ''Hotovo'',
      m_message = None, m_time = None, m_priority = None,
      m_tags = Some [''tada'', ''warning''], m_actions = None\<rparr>"
  let ?m6 = "\<lparr>m_id = Some ''m6'', m_event = None, m_title = Some ''[app] Permission needed'',
      m_message = None, m_time = None, m_priority = None,
      m_tags = None, m_actions = None\<rparr>"
  let ?m7 = "\<lparr>m_id = Some ''m7'', m_event = None, m_title = Some ''[app] Permission needed'',
      m_message = None, m_time = None, m_priority = None,
      m_tags = Some [''tada''], m_actions = None\<rparr>"
  let ?m8 = "\<lparr>m_id = Some ''m8'', m_event = None, m_title = Some ''Build finished'',
      m_message = None, m_time = None, m_priority = None,
      m_tags = Some [''tada''], m_actions = None\<rparr>"
  have 1: "detectType ?m1 = Permission"
    using detectType_precedence [of ?m1] by (simp add: tags_of_def)
  have 2: "detectType ?m2 = Choice"
    using detectType_precedence [of ?m2] by (simp add: tags_of_def)
  have 3: "detectType ?m3 = Approve"
    using detectType_precedence [of ?m3] by (simp add: tags_of_def)
  have 4: "detectType ?m4 = Done"
    using detectType_precedence [of ?m4] by (simp add: tags_of_def)
  have 5: "detectType ?m5 = Decision"
    using detectType_precedence [of ?m5] by (simp add: tags_of_def)
  have "m_title ?m6 = Some (''[app] '' @ ''Permission'' @ '' needed'')" by simp
  then have "\<exists>a b. m_title ?m6 = Some (a @ ''Permission'' @ b)" by blast
  then have 6: "detectType ?m6 = Permission"
    using detectType_precedence [of ?m6] by simp
  have "title_of ?m7 = ''[app] '' @ ''Permission'' @ '' needed''"
    by (simp add: title_of_def str_or_def)
  then have "\<exists>a b. title_of ?m7 = a @ ''Permission'' @ b" by blast
  then have 7: "detectType ?m7 = Permission"
    using detectType_precedence [of ?m7] by (simp add: tags_of_def)
  have "\<forall>k \<in> {''Permission'', ''Vyber'', ''Schvaleni'', ''Hotovo''}.
          \<nexists>a b. title_of ?m8 = a @ k @ b"
    unfolding str_includes_iff [symmetric] by (simp add: title_of_def str_or_def)
  then have 8: "detectType ?m8 = Decision"
    using detectType_precedence [of ?m8] by (simp add: tags_of_def)
  from 1 2 3 4 5 6 7 8 show ?thesis by blast
qed

text \<open>
  For a first action that has a body, the correlation id is the trailing digit string
  after the last underscore of that body: with no actions the result is null; when the
  body ends in an underscore followed by one or more digits the result is those digits
  (which contain no underscore, so the underscore before them is the last one); otherwise
  the result is null.
\<close>

lemma extractReqId_with_body:
  "extractReqId [] = Inr None \<and>
   (body a = Some b \<longrightarrow>
      (\<forall>ds. (\<exists>p. b = p @ ''_'' @ ds) \<and> ds \<noteq> [] \<and> (\<forall>c \<in> set ds. is_digit c) \<longrightarrow>
         extractReqId (a # as) = Inr (Some ds) \<and> CHR ''_'' \<notin> set ds) \<and>
      ((\<nexists>p ds. b = p @ ''_'' @ ds \<and> ds \<noteq> [] \<and> (\<forall>c \<in> set ds. is_digit c)) \<longrightarrow>
         extractReqId (a # as) = Inr None))"
proof -
  have some: "extractReqId (a # as) = Inr (Some ds) \<and> CHR ''_'' \<notin> set ds"
    if "body a = Some b" "\<exists>p. b = p @ ''_'' @ ds" "ds \<noteq> []" "\<forall>c \<in> set ds. is_digit c"
    for ds
  proof -
    from that have "regex_search b = Some ds"
      using regex_search_iff [of b ds] by (simp add: list_all_iff)
    moreover from that(4) have "CHR ''_'' \<notin> set ds"
      using underscore_not_digit by blast
    ultimately show ?thesis using that(1) by (simp add: extractReqId_def)
  qed
  have none: "extractReqId (a # as) = Inr None"
    if "body a = Some b"
      "\<nexists>p ds. b = p @ ''_'' @ ds \<and> ds \<noteq> [] \<and> (\<forall>c \<in> set ds. is_digit c)"
  proof -
    have "regex_search b \<noteq> Some ds" for ds
      using that(2) regex_search_iff [of b ds] by (auto simp: list_all_iff)
    then have "regex_search b = None" by (cases "regex_search b") auto
    then show ?thesis using that(1) by (simp add: extractReqId_def)
  qed
  have "extractReqId [] = Inr None" by (simp add: extractReqId_def)
  with some none show ?thesis by blast
qed

lemma extractReqId_with_body_examples:
  "extractReqId [] = Inr None \<and>
   extractReqId [\<lparr>label = ''OK'', body = Some ''OK_1700000000''\<rparr>,
                 \<lparr>label = ''Deny'', body = Some ''NOK_1700000000''\<rparr>] = Inr (Some ''1700000000'') \<and>
   extractReqId [\<lparr>label = ''OK'', body = Some ''OK''\<rparr>] = Inr None"
proof -
  let ?a = "\<lparr>label = ''OK'', body = Some ''OK_1700000000''\<rparr>"
  let ?n = "\<lparr>label = ''Deny'', body = Some ''NOK_1700000000''\<rparr>"
  let ?b = "\<lparr>label = ''OK'', body = Some ''OK''\<rparr>"
  have "''OK_1700000000'' = ''OK'' @ ''_'' @ ''1700000000''" by simp
  then have "\<exists>p. ''OK_1700000000'' = p @ ''_'' @ ''1700000000''" by blast
  moreover have "\<forall>c \<in> set ''1700000000''. is_digit c" by (simp add: is_digit_def)
  ultimately have 1: "extractReqId [?a, ?n] = Inr (Some ''1700000000'')"
    using extractReqId_with_body [of ?a "''OK_1700000000''" "[?n]"] by simp
  have "\<nexists>p ds. ''OK'' = p @ ''_'' @ ds \<and> ds \<noteq> [] \<and> (\<forall>c \<in> set ds. is_digit c)"
  proof
    assume "\<exists>p ds. ''OK'' = p @ ''_'' @ ds \<and> ds \<noteq> [] \<and> (\<forall>c \<in> set ds. is_digit c)"
    then obtain p ds where "''OK'' = p @ ''_'' @ ds" by blast
    then have "set ''OK'' = set (p @ ''_'' @ ds)" by simp
    then have "CHR ''_'' \<in> set ''OK''" by simp
    then show False by simp
  qed
  then have 2: "extractReqId [?b] = Inr None"
    using extractReqId_with_body [of ?b "''OK''" "[]"] by simp
  have "extractReqId [] = Inr None"
    using extractReqId_with_body [of ?a "''OK_1700000000''" "[]"] by blast
  with 1 2 show ?thesis by blast
qed

text \<open>
  C9. The correlation id is to be null whenever the first action's body does not end in
  an underscore followed by digits. An http action of the feed need not have a body, and
  \<^verbatim>\<open>extractActions\<close> passes such an action on. For a message whose first http action
  has none, \<^verbatim>\<open>actions[0].body.match\<close> throws a TypeError instead of giving null; the
  exception leaves \<^verbatim>\<open>_processMessage\<close> before the mark is saved and before the callback
  is called, and is swallowed on either path, so the message is dropped.
\<close>

theorem extractReqId_missing_body:
  "extractActions \<lparr>m_id = Some ''m9'', m_event = Some ''message'',
       m_title = Some ''Report ready'', m_message = Some ''Open the report'',
       m_time = Some 1700000000, m_priority = None, m_tags = Some [''white_check_mark''],
       m_actions = Some [\<lparr>ra_action = ''http'', ra_label = ''Open'', ra_body = None\<rparr>]\<rparr>
     = [\<lparr>label = ''Open'', body = None\<rparr>] \<and>
   extractReqId [\<lparr>label = ''Open'', body = None\<rparr>] = Inl TypeError \<and>
   ingest 1700000001000
     (Parsed \<lparr>m_id = Some ''m9'', m_event = Some ''message'',
       m_title = Some ''Report ready'', m_message = Some ''Open the report'',
       m_time = Some 1700000000, m_priority = None, m_tags = Some [''white_check_mark''],
       m_actions = Some [\<lparr>ra_action = ''http'', ra_label = ''Open'', ra_body = None\<rparr>]\<rparr>)
     ntfy_init
     = (None, ntfy_init)"
  by (simp add: extractActions_def extractReqId_def ingest_def processMessage_def
      skip_event_def)

section \<open>Properties of the connection manager\<close>

subsection \<open>High-water mark\<close>

lemma since_le_refl [simp]: "since_le a a"
  by (simp add: since_le_def split: option.splits)

lemma since_le_antisym: "since_le a b \<Longrightarrow> since_le b a \<Longrightarrow> a = b"
  by (auto simp: since_le_def split: option.splits)

lemma since_le_trans: "since_le a b \<Longrightarrow> since_le b c \<Longrightarrow> since_le a c"
  by (auto simp: since_le_def split: option.splits)

lemma saveLastSince_step:
  assumes "hwm_inv s" "t \<noteq> 0"
  shows "hwm_inv (saveLastSince t s)"
    and "since_le (lastSince s) (lastSince (saveLastSince t s))"
    and "since_le (stored_since s) (stored_since (saveLastSince t s))"
    and "lastSince (saveLastSince t s) = (case lastSince s of None \<Rightarrow> Some t | Some v \<Rightarrow> Some (max v t))"
    and "storage_fails (saveLastSince t s) = storage_fails s"
    and "stored_since (saveLastSince t s) =
           (if storage_fails s \<or> lastSince (saveLastSince t s) = lastSince s
            then stored_since s else lastSince (saveLastSince t s))"
  using assms
  by (auto simp: hwm_inv_def saveLastSince_def Let_def since_le_def split: option.splits)

lemma ingest_state:
  "snd (ingest now fr s) = (case carried_time fr of None \<Rightarrow> s | Some t \<Rightarrow> saveLastSince t s)"
  by (auto simp: ingest_def carried_time_def processMessage_def Let_def
      split: frame.splits sum.splits option.splits)

lemma carried_time_nonzero: "carried_time fr = Some t \<Longrightarrow> t \<noteq> 0"
  by (auto simp: carried_time_def split: frame.splits sum.splits option.splits if_splits)

lemma hwm_advance_refl: "hwm_inv s \<Longrightarrow> hwm_advance [] s s"
  by (simp add: hwm_advance_def)

lemma hwm_advance_trans:
  assumes "hwm_advance ts1 s s1" "hwm_advance ts2 s1 s2"
  shows "hwm_advance (ts1 @ ts2) s s2"
proof -
  from assms(1) have a: "since_le (lastSince s) (lastSince s1)"
    "since_le (stored_since s) (stored_since s1)"
    "list_all (\<lambda>t. since_le (Some t) (lastSince s1)) ts1"
    "lastSince s1 = lastSince s \<or> list_ex (\<lambda>t. lastSince s1 = Some t) ts1"
    "storage_fails s1 = storage_fails s"
    "stored_since s1 =
       (if storage_fails s \<or> lastSince s1 = lastSince s then stored_since s else lastSince s1)"
    unfolding hwm_advance_def by blast+
  from assms(2) have b: "hwm_inv s2" "since_le (lastSince s1) (lastSince s2)"
    "since_le (stored_since s1) (stored_since s2)"
    "list_all (\<lambda>t. since_le (Some t) (lastSince s2)) ts2"
    "lastSince s2 = lastSince s1 \<or> list_ex (\<lambda>t. lastSince s2 = Some t) ts2"
    "storage_fails s2 = storage_fails s1"
    "stored_since s2 =
       (if storage_fails s1 \<or> lastSince s2 = lastSince s1 then stored_since s1 else lastSince s2)"
    unfolding hwm_advance_def by blast+
  have 1: "since_le (lastSince s) (lastSince s2)"
    using a(1) b(2) by (rule since_le_trans)
  have 2: "since_le (stored_since s) (stored_since s2)"
    using a(2) b(3) by (rule since_le_trans)
  have "list_all (\<lambda>t. since_le (Some t) (lastSince s2)) ts1"
    using a(3) b(2) since_le_trans [of _ "lastSince s1" "lastSince s2"]
    by (auto simp: list_all_iff)
  with b(4) have 3: "list_all (\<lambda>t. since_le (Some t) (lastSince s2)) (ts1 @ ts2)"
    by simp
  have 4: "lastSince s2 = lastSince s \<or> list_ex (\<lambda>t. lastSince s2 = Some t) (ts1 @ ts2)"
    using a(4) b(5) by (auto simp: list_ex_iff)
  have 5: "storage_fails s2 = storage_fails s"
    using a(5) b(6) by simp
  have 6: "stored_since s2 =
      (if storage_fails s \<or> lastSince s2 = lastSince s then stored_since s else lastSince s2)"
  proof (cases "lastSince s2 = lastSince s")
    case True
    then have "since_le (lastSince s1) (lastSince s)" using b(2) by simp
    with a(1) have "lastSince s1 = lastSince s" using since_le_antisym by blast
    with True a(5) show ?thesis
      using a(6) b(7) by (simp split: if_splits)
  next
    case False
    with a(5) show ?thesis
      using a(6) b(7) by (auto split: if_splits)
  qed
  from b(1) 1 2 3 4 5 6 show ?thesis
    unfolding hwm_advance_def by blast
qed

lemma hwm_advance_watchdog:
  "hwm_advance ts (resetWatchdog now s) s' = hwm_advance ts s s'"
  by (simp add: hwm_advance_def resetWatchdog_def)

lemma hwm_inv_watchdog: "hwm_inv (resetWatchdog now s) = hwm_inv s"
  by (simp add: hwm_inv_def resetWatchdog_def)

lemma ingest_advance:
  assumes "hwm_inv s"
  shows "hwm_advance (List.map_filter carried_time [fr]) s (snd (ingest now fr s))"
proof (cases "carried_time fr")
  case None
  then show ?thesis using assms by (simp add: ingest_state map_filter_simps hwm_advance_refl)
next
  case (Some t)
  then have "t \<noteq> 0" by (rule carried_time_nonzero)
  note st = saveLastSince_step [OF assms this]
  have "since_le (Some t) (lastSince (saveLastSince t s))"
    using st(4) by (simp add: since_le_def split: option.splits)
  moreover have "lastSince (saveLastSince t s) = lastSince s \<or>
      lastSince (saveLastSince t s) = Some t"
    using st(4) by (auto simp: max_def split: option.splits)
  ultimately have "hwm_advance [t] s (saveLastSince t s)"
    unfolding hwm_advance_def using st(1,2,3,5,6) by simp
  with Some show ?thesis
    by (simp add: ingest_state map_filter_simps)
qed

lemma ingest_lines_advance:
  "hwm_inv s \<Longrightarrow> hwm_advance (List.map_filter carried_time frs) s (snd (ingest_lines now frs s))"
proof (induction frs arbitrary: s)
  case Nil
  then show ?case by (simp add: map_filter_simps hwm_advance_refl)
next
  case (Cons fr frs)
  obtain n s1 where i: "ingest now fr s = (n, s1)" by (cases "ingest now fr s")
  have a1: "hwm_advance (List.map_filter carried_time [fr]) s s1"
    using ingest_advance [OF Cons.prems, of fr now] i by simp
  then have "hwm_inv s1" by (simp add: hwm_advance_def)
  then have a2: "hwm_advance (List.map_filter carried_time frs) s1 (snd (ingest_lines now frs s1))"
    by (rule Cons.IH)
  have "List.map_filter carried_time (fr # frs)
          = List.map_filter carried_time [fr] @ List.map_filter carried_time frs"
    by (simp add: map_filter_simps split: option.splits)
  with hwm_advance_trans [OF a1 a2] i show ?case
    by (simp add: split_beta)
qed

lemma deliver_advance:
  assumes "hwm_inv s"
  shows "hwm_advance (List.map_filter carried_time (delivery_frames d)) s (snd (deliver d s))"
proof (cases d)
  case (Live now fr)
  have "hwm_advance (List.map_filter carried_time [fr]) (resetWatchdog now s)
          (snd (ingest now fr (resetWatchdog now s)))"
    using assms by (intro ingest_advance) (simp add: hwm_inv_watchdog)
  then have "hwm_advance (List.map_filter carried_time [fr]) s
          (snd (ingest now fr (resetWatchdog now s)))"
    by (simp add: hwm_advance_watchdog)
  with Live show ?thesis
    by (simp add: deliver_def delivery_frames_def ws_onmessage_def split_beta)
next
  case (CatchUp now r)
  show ?thesis
  proof (cases r)
    case PollRejected
    with CatchUp assms show ?thesis
      by (simp add: deliver_def delivery_frames_def fetchRecent_settled_def
          map_filter_simps hwm_advance_refl)
  next
    case (PollResponse st lines)
    with CatchUp assms ingest_lines_advance [OF assms, of lines now] show ?thesis
      by (simp add: deliver_def delivery_frames_def fetchRecent_settled_def
          map_filter_simps hwm_advance_refl)
  qed
qed

lemma map_filter_append:
  "List.map_filter f (xs @ ys) = List.map_filter f xs @ List.map_filter f ys"
  by (simp add: List.map_filter_def)

lemma deliveries_advance:
  "hwm_inv s \<Longrightarrow> hwm_advance (ingested_times ds) s (snd (deliveries ds s))"
proof (induction ds arbitrary: s)
  case Nil
  then show ?case by (simp add: ingested_times_def map_filter_simps hwm_advance_refl)
next
  case (Cons d ds)
  obtain ns1 s1 where d: "deliver d s = (ns1, s1)" by (cases "deliver d s")
  have a1: "hwm_advance (List.map_filter carried_time (delivery_frames d)) s s1"
    using deliver_advance [OF Cons.prems, of d] d by simp
  then have "hwm_inv s1" by (simp add: hwm_advance_def)
  then have a2: "hwm_advance (ingested_times ds) s1 (snd (deliveries ds s1))"
    by (rule Cons.IH)
  from hwm_advance_trans [OF a1 a2] d show ?case
    by (simp add: split_beta ingested_times_def map_filter_append)
qed

lemma hwm_inv_init: "hwm_inv ntfy_init"
  by (simp add: hwm_inv_def ntfy_init_def since_le_def)

text \<open>\<^verbatim>\<open>connect\<close> establishes the invariant, unless a 0 was stored or held before.\<close>

lemma hwm_inv_connect:
  assumes "stored_since s \<noteq> Some 0" "lastSince s \<noteq> Some 0"
  shows "hwm_inv (connect tp rtp now s)"
  using assms
  by (auto simp: hwm_inv_def connect_def connect_socket_def loadLastSince_def
      fetchRecent_start_def setStatus_def since_le_def split: option.splits)

text \<open>
  C7, as stated: the persisted mark is updated to the origin time of each message that is
  classified and carries a time. The write to storage is inside a \<^verbatim>\<open>try\<close> whose
  \<^verbatim>\<open>catch\<close> ignores the failure: when storage cannot be written, a message with a later
  time raises the variable and leaves the stored entry at the old time.
\<close>

theorem high_water_mark_counterexample:
  "carried_time (Parsed \<lparr>m_id = Some ''a'', m_event = Some ''message'',
          m_title = Some ''Done'', m_message = None, m_time = Some 1700000050,
          m_priority = None, m_tags = None, m_actions = None\<rparr>) = Some 1700000050 \<and>
   lastSince (snd (deliver
      (Live 1700000051000 (Parsed \<lparr>m_id = Some ''a'', m_event = Some ''message'',
          m_title = Some ''Done'', m_message = None, m_time = Some 1700000050,
          m_priority = None, m_tags = None, m_actions = None\<rparr>))
      (ntfy_init\<lparr>lastSince := Some 1700000000, stored_since := Some 1700000000,
                  storage_fails := True\<rparr>))) = Some 1700000050 \<and>
   stored_since (snd (deliver
      (Live 1700000051000 (Parsed \<lparr>m_id = Some ''a'', m_event = Some ''message'',
          m_title = Some ''Done'', m_message = None, m_time = Some 1700000050,
          m_priority = None, m_tags = None, m_actions = None\<rparr>))
      (ntfy_init\<lparr>lastSince := Some 1700000000, stored_since := Some 1700000000,
                  storage_fails := True\<rparr>))) = Some 1700000000"
  by (simp add: carried_time_def skip_event_def extractActions_def extractReqId_def
      deliver_def ws_onmessage_def split_beta ingest_state saveLastSince_def
      resetWatchdog_def ntfy_init_def)

text \<open>
  C7, amended. The high-water mark never moves back. From a state as \<^verbatim>\<open>connect\<close> leaves
  it, over every sequence of deliveries on the two paths: the variable and the stored
  entry are each at least what they were; the variable ends at least as large as the time
  of every message that was processed without an exception and carries a time other than
  0, and it is the old value or one of those times; the stored entry ends equal to the variable if the variable moved and
  storage can be written, and as it was otherwise. One such message with time \<open>t\<close> makes
  the variable \<open>t\<close> when there was no mark and the larger of the old mark and \<open>t\<close>
  otherwise; when the variable is raised the stored entry is written with \<open>t\<close>, unless
  the write fails, which is ignored.
\<close>

theorem high_water_mark_raised:
  assumes "hwm_inv s"
  shows "since_le (lastSince s) (lastSince (snd (deliveries ds s))) \<and>
         since_le (stored_since s) (stored_since (snd (deliveries ds s))) \<and>
         hwm_inv (snd (deliveries ds s)) \<and>
         (\<forall>t \<in> set (ingested_times ds). since_le (Some t) (lastSince (snd (deliveries ds s)))) \<and>
         (lastSince (snd (deliveries ds s)) = lastSince s \<or>
          (\<exists>t \<in> set (ingested_times ds). lastSince (snd (deliveries ds s)) = Some t)) \<and>
         stored_since (snd (deliveries ds s)) =
           (if storage_fails s \<or> lastSince (snd (deliveries ds s)) = lastSince s
            then stored_since s else lastSince (snd (deliveries ds s))) \<and>
         (carried_time fr = Some t \<longrightarrow>
            lastSince (snd (deliver (Live now fr) s)) =
              (case lastSince s of None \<Rightarrow> Some t | Some v \<Rightarrow> Some (max v t)) \<and>
            stored_since (snd (deliver (Live now fr) s)) =
              (if storage_fails s then stored_since s
               else case lastSince s of
                      None \<Rightarrow> Some t
                    | Some v \<Rightarrow> if v < t then Some t else stored_since s))"
proof -
  have "hwm_advance (ingested_times ds) s (snd (deliveries ds s))"
    using assms by (rule deliveries_advance)
  then have seq: "since_le (lastSince s) (lastSince (snd (deliveries ds s))) \<and>
         since_le (stored_since s) (stored_since (snd (deliveries ds s))) \<and>
         hwm_inv (snd (deliveries ds s)) \<and>
         (\<forall>t \<in> set (ingested_times ds). since_le (Some t) (lastSince (snd (deliveries ds s)))) \<and>
         (lastSince (snd (deliveries ds s)) = lastSince s \<or>
          (\<exists>t \<in> set (ingested_times ds). lastSince (snd (deliveries ds s)) = Some t)) \<and>
         stored_since (snd (deliveries ds s)) =
           (if storage_fails s \<or> lastSince (snd (deliveries ds s)) = lastSince s
            then stored_since s else lastSince (snd (deliveries ds s)))"
    unfolding hwm_advance_def list_all_iff list_ex_iff by blast
  have one: "lastSince (snd (deliver (Live now fr) s)) =
              (case lastSince s of None \<Rightarrow> Some t | Some v \<Rightarrow> Some (max v t)) \<and>
            stored_since (snd (deliver (Live now fr) s)) =
              (if storage_fails s then stored_since s
               else case lastSince s of
                      None \<Rightarrow> Some t
                    | Some v \<Rightarrow> if v < t then Some t else stored_since s)"
    if ct: "carried_time fr = Some t"
  proof -
    have inv: "hwm_inv (resetWatchdog now s)"
      using assms by (simp add: hwm_inv_watchdog)
    have t0: "t \<noteq> 0" using ct by (rule carried_time_nonzero)
    have st: "snd (deliver (Live now fr) s) = saveLastSince t (resetWatchdog now s)"
      using ct by (simp add: deliver_def ws_onmessage_def split_beta ingest_state)
    have "lastSince (snd (deliver (Live now fr) s)) =
              (case lastSince s of None \<Rightarrow> Some t | Some v \<Rightarrow> Some (max v t))"
      using saveLastSince_step(4) [OF inv t0] st by (simp add: resetWatchdog_def)
    moreover have "stored_since (snd (deliver (Live now fr) s)) =
              (if storage_fails s then stored_since s
               else case lastSince s of
                      None \<Rightarrow> Some t
                    | Some v \<Rightarrow> if v < t then Some t else stored_since s)"
      using assms t0 unfolding st
      by (auto simp: saveLastSince_def resetWatchdog_def hwm_inv_def Let_def
          split: option.splits)
    ultimately show ?thesis by simp
  qed
  from seq one show ?thesis by blast
qed

theorem high_water_mark_raised_witness:
  "hwm_inv (ntfy_init\<lparr>lastSince := Some 1700000000, stored_since := Some 1700000000\<rparr>) \<and>
   lastSince (snd (deliveries
      [Live 1700000051000 (Parsed \<lparr>m_id = Some ''a'', m_event = Some ''message'',
          m_title = Some ''Done'', m_message = None, m_time = Some 1700000050,
          m_priority = None, m_tags = None, m_actions = None\<rparr>),
       CatchUp 1700000052000 (PollResponse 200
         [Parsed \<lparr>m_id = Some ''b'', m_event = None, m_title = None, m_message = None,
            m_time = Some 1700000010, m_priority = None, m_tags = None, m_actions = None\<rparr>,
          Unparseable])]
      (ntfy_init\<lparr>lastSince := Some 1700000000, stored_since := Some 1700000000\<rparr>)))
     = Some 1700000050 \<and>
   stored_since (snd (deliveries
      [Live 1700000051000 (Parsed \<lparr>m_id = Some ''a'', m_event = Some ''message'',
          m_title = Some ''Done'', m_message = None, m_time = Some 1700000050,
          m_priority = None, m_tags = None, m_actions = None\<rparr>),
       CatchUp 1700000052000 (PollResponse 200
         [Parsed \<lparr>m_id = Some ''b'', m_event = None, m_title = None, m_message = None,
            m_time = Some 1700000010, m_priority = None, m_tags = None, m_actions = None\<rparr>,
          Unparseable])]
      (ntfy_init\<lparr>lastSince := Some 1700000000, stored_since := Some 1700000000\<rparr>)))
     = Some 1700000050 \<and>
   stored_since (snd (deliver
      (Live 1700000051000 (Parsed \<lparr>m_id = Some ''a'', m_event = Some ''message'',
          m_title = Some ''Done'', m_message = None, m_time = Some 1700000050,
          m_priority = None, m_tags = None, m_actions = None\<rparr>))
      (ntfy_init\<lparr>lastSince := Some 1700000000, stored_since := Some 1700000000\<rparr>)))
     = Some 1700000050 \<and>
   stored_since (snd (deliver
      (Live 1700000051000 (Parsed \<lparr>m_id = Some ''a'', m_event = Some ''message'',
          m_title = Some ''Done'', m_message = None, m_time = Some 1700000050,
          m_priority = None, m_tags = None, m_actions = None\<rparr>))
      (ntfy_init\<lparr>lastSince := Some 1700000000, stored_since := Some 1700000000,
                  storage_fails := True\<rparr>)))
     = Some 1700000000"
proof -
  let ?s = "ntfy_init\<lparr>lastSince := Some 1700000000, stored_since := Some 1700000000\<rparr>"
  let ?f = "ntfy_init\<lparr>lastSince := Some 1700000000, stored_since := Some 1700000000,
                  storage_fails := True\<rparr>"
  let ?a = "Parsed \<lparr>m_id = Some ''a'', m_event = Some ''message'',
          m_title = Some ''Done'', m_message = None, m_time = Some 1700000050,
          m_priority = None, m_tags = None, m_actions = None\<rparr>"
  let ?b = "Parsed \<lparr>m_id = Some ''b'', m_event = None, m_title = None, m_message = None,
            m_time = Some 1700000010, m_priority = None, m_tags = None, m_actions = None\<rparr>"
  let ?ds = "[Live 1700000051000 ?a, CatchUp 1700000052000 (PollResponse 200 [?b, Unparseable])]"
  have inv: "hwm_inv ?s"
    by (simp add: hwm_inv_def ntfy_init_def since_le_def)
  have invf: "hwm_inv ?f"
    by (simp add: hwm_inv_def ntfy_init_def since_le_def)
  have times: "ingested_times ?ds = [1700000050, 1700000010]"
    by (simp add: ingested_times_def delivery_frames_def carried_time_def skip_event_def
        extractActions_def extractReqId_def map_filter_simps)
  have ct: "carried_time ?a = Some 1700000050"
    by (simp add: carried_time_def skip_event_def extractActions_def extractReqId_def)
  have old: "lastSince ?s = Some 1700000000" "stored_since ?s = Some 1700000000"
    "\<not> storage_fails ?s" "lastSince ?f = Some 1700000000" "stored_since ?f = Some 1700000000"
    "storage_fails ?f"
    by (simp_all add: ntfy_init_def)
  note hw = high_water_mark_raised [OF inv, of ?ds ?a 1700000050 1700000051000]
  note hf = high_water_mark_raised [OF invf, of "[]" ?a 1700000050 1700000051000]
  from hw times old
  have "since_le (Some 1700000050) (lastSince (snd (deliveries ?ds ?s)))"
    and "lastSince (snd (deliveries ?ds ?s)) = Some 1700000000 \<or>
         lastSince (snd (deliveries ?ds ?s)) = Some 1700000050 \<or>
         lastSince (snd (deliveries ?ds ?s)) = Some 1700000010"
    by simp_all
  then have l: "lastSince (snd (deliveries ?ds ?s)) = Some 1700000050"
    by (auto simp: since_le_def)
  from hw l old have st: "stored_since (snd (deliveries ?ds ?s)) = Some 1700000050"
    by simp
  from hw ct old
  have one: "stored_since (snd (deliver (Live 1700000051000 ?a) ?s)) = Some 1700000050"
    by simp
  from hf ct old
  have onef: "stored_since (snd (deliver (Live 1700000051000 ?a) ?f)) = Some 1700000000"
    by simp
  from inv l st one onef show ?thesis by simp
qed

subsection \<open>Frames and the connection variables\<close>

lemma ingest_conn_fields: "conn_fields (snd (ingest now fr s)) = conn_fields s"
  by (auto simp: conn_fields_def ingest_def processMessage_def saveLastSince_def Let_def
      split: frame.splits sum.splits option.splits)

lemma ingest_watchdog: "watchdogTimer (snd (ingest now fr s)) = watchdogTimer s"
  by (auto simp: ingest_def processMessage_def saveLastSince_def Let_def
      split: frame.splits sum.splits option.splits)

lemma ingest_lines_conn_fields: "conn_fields (snd (ingest_lines now frs s)) = conn_fields s"
proof (induction frs arbitrary: s)
  case Nil
  then show ?case by simp
next
  case (Cons fr frs)
  have "conn_fields (snd (ingest_lines now frs (snd (ingest now fr s))))
          = conn_fields (snd (ingest now fr s))"
    by (rule Cons.IH)
  then show ?case by (simp add: split_beta ingest_conn_fields)
qed

lemma ingest_lines_watchdog: "watchdogTimer (snd (ingest_lines now frs s)) = watchdogTimer s"
proof (induction frs arbitrary: s)
  case Nil
  then show ?case by simp
next
  case (Cons fr frs)
  have "watchdogTimer (snd (ingest_lines now frs (snd (ingest now fr s))))
          = watchdogTimer (snd (ingest now fr s))"
    by (rule Cons.IH)
  then show ?case by (simp add: split_beta ingest_watchdog)
qed

lemma ws_onmessage_watchdog:
  "watchdogTimer (snd (ws_onmessage now fr s)) = Some \<lparr>armed_at = now, delay = WATCHDOG_MS\<rparr>"
  by (simp add: ws_onmessage_def ingest_watchdog resetWatchdog_def)

lemma ws_onmessage_conn_fields: "conn_fields (snd (ws_onmessage now fr s)) = conn_fields s"
  by (simp add: ws_onmessage_def ingest_conn_fields) (simp add: conn_fields_def resetWatchdog_def)

lemma deliver_conn_fields: "conn_fields (snd (deliver d s)) = conn_fields s"
  by (cases d)
    (auto simp: deliver_def split_beta ws_onmessage_conn_fields fetchRecent_settled_def
      ingest_lines_conn_fields split: poll_outcome.splits)

lemma deliveries_conn_fields: "conn_fields (snd (deliveries ds s)) = conn_fields s"
proof (induction ds arbitrary: s)
  case Nil
  then show ?case by simp
next
  case (Cons d ds)
  have "conn_fields (snd (deliveries ds (snd (deliver d s)))) = conn_fields (snd (deliver d s))"
    by (rule Cons.IH)
  then show ?case by (simp add: split_beta deliver_conn_fields)
qed

lemma deliveries_watchdog:
  "watchdogTimer s = Some \<lparr>armed_at = t, delay = WATCHDOG_MS\<rparr> \<Longrightarrow>
   watchdogTimer (snd (deliveries ds s))
     = Some \<lparr>armed_at = last_activity t ds, delay = WATCHDOG_MS\<rparr>"
proof (induction ds arbitrary: s t)
  case Nil
  then show ?case by simp
next
  case (Cons d ds)
  show ?case
  proof (cases d)
    case (Live now fr)
    have "watchdogTimer (snd (deliver d s)) = Some \<lparr>armed_at = now, delay = WATCHDOG_MS\<rparr>"
      using Live by (simp add: deliver_def split_beta ws_onmessage_watchdog)
    from Cons.IH [OF this] Live show ?thesis by (simp add: split_beta)
  next
    case (CatchUp now r)
    have "watchdogTimer (snd (deliver d s)) = Some \<lparr>armed_at = t, delay = WATCHDOG_MS\<rparr>"
      using CatchUp Cons.prems
      by (auto simp: deliver_def fetchRecent_settled_def ingest_lines_watchdog
          split: poll_outcome.splits)
    from Cons.IH [OF this] CatchUp show ?thesis by (simp add: split_beta)
  qed
qed

subsection \<open>Catch-up query\<close>

text \<open>
  C6, as stated: whenever a high-water mark exists the query asks for the messages since
  the mark minus 5 seconds. This fails for a mark older than the one-hour window: with the
  clock at 1700000000 s and a mark 10000 s in the past, the query asks for the messages
  since 1699996400, one hour back, and not since 1699989995.
\<close>

theorem catchup_since_counterexample:
  "lastSince (ntfy_init\<lparr>lastSince := Some 1699990000\<rparr>) = Some 1699990000 \<and>
   fetches (fetchRecent_start 1700000000000 (ntfy_init\<lparr>lastSince := Some 1699990000\<rparr>))
     = [1699996400] \<and>
   fetches (fetchRecent_start 1700000000000 (ntfy_init\<lparr>lastSince := Some 1699990000\<rparr>))
     \<noteq> [1699990000 - 5]"
  by (simp add: fetchRecent_start_def catchup_since_def ntfy_init_def)

text \<open>
  C6, amended. With a mark (other than 0) the query asks for the messages since the later
  of the mark minus 5 seconds and one hour before now: since the mark minus 5 seconds when
  that lies within the last hour, and since one hour before now when the mark is older.
  Without a mark (or with the mark 0) it asks for the messages of the last hour.
\<close>

theorem catchup_since_window:
  "(lastSince s = Some hwm \<and> hwm \<noteq> 0 \<longrightarrow>
      fetches (fetchRecent_start now s) = fetches s @ [max (hwm - 5) (now div 1000 - 3600)]) \<and>
   (lastSince s = Some hwm \<and> hwm \<noteq> 0 \<and> now div 1000 - 3600 \<le> hwm - 5 \<longrightarrow>
      fetches (fetchRecent_start now s) = fetches s @ [hwm - 5]) \<and>
   (lastSince s = Some hwm \<and> hwm \<noteq> 0 \<and> hwm - 5 < now div 1000 - 3600 \<longrightarrow>
      fetches (fetchRecent_start now s) = fetches s @ [now div 1000 - 3600]) \<and>
   (lastSince s = None \<or> lastSince s = Some 0 \<longrightarrow>
      fetches (fetchRecent_start now s) = fetches s @ [now div 1000 - 3600])"
  by (auto simp: fetchRecent_start_def catchup_since_def Let_def)

theorem catchup_since_window_witness:
  "fetches (fetchRecent_start 1700000000000 (ntfy_init\<lparr>lastSince := Some 1699999000\<rparr>))
     = [1699998995] \<and>
   fetches (fetchRecent_start 1700000000000 (ntfy_init\<lparr>lastSince := Some 1699990000\<rparr>))
     = [1699996400] \<and>
   fetches (fetchRecent_start 1700000000000 ntfy_init) = [1699996400]"
  using catchup_since_window [of "ntfy_init\<lparr>lastSince := Some 1699999000\<rparr>" 1699999000 1700000000000]
    catchup_since_window [of "ntfy_init\<lparr>lastSince := Some 1699990000\<rparr>" 1699990000 1700000000000]
    catchup_since_window [of ntfy_init 0 1700000000000]
  by (simp add: ntfy_init_def)

subsection \<open>Reconnect backoff\<close>

lemma backoff_iterate:
  "min (min (1000 * 2 ^ n) MAX_RECONNECT_DELAY * 2) MAX_RECONNECT_DELAY
     = min (1000 * 2 ^ Suc n) MAX_RECONNECT_DELAY"
  by (simp add: MAX_RECONNECT_DELAY_def min_def)

lemma connect_socket_keeps:
  "intentionalClose (connect_socket now s) = intentionalClose s"
  "reconnectDelay (connect_socket now s) = reconnectDelay s"
  "reconnectTimer (connect_socket now s) = reconnectTimer s"
  "watchdogTimer (connect_socket now s) = watchdogTimer s"
  by (simp_all add: connect_socket_def fetchRecent_start_def setStatus_def)

lemma connect_socket_ws: "ws s \<noteq> None \<Longrightarrow> ws (connect_socket now s) \<noteq> None"
  by (simp add: connect_socket_def fetchRecent_start_def setStatus_def)

lemma ws_onclose_fields:
  "ws (ws_onclose k tc s) = ws s"
  "intentionalClose (ws_onclose k tc s) = intentionalClose s"
  "reconnectDelay (ws_onclose k tc s) = reconnectDelay s"
  "watchdogTimer (ws_onclose k tc s) = None"
  "reconnectTimer (ws_onclose k tc s) =
     (if intentionalClose s then reconnectTimer s
      else Some \<lparr>armed_at = tc, delay = reconnectDelay s\<rparr>)"
  by (simp_all add: ws_onclose_def scheduleReconnect_def setStatus_def clearWatchdog_def
      set_ready_def Let_def)

lemma close_then_fire:
  assumes "\<not> intentionalClose s" "ws s \<noteq> None"
  shows "reconnectTimer (close_current tc s) = Some \<lparr>armed_at = tc, delay = reconnectDelay s\<rparr>"
    and "reconnectDelay (reconnect_timer_fire late (close_current tc s))
           = min (reconnectDelay s * 2) MAX_RECONNECT_DELAY"
    and "\<not> intentionalClose (reconnect_timer_fire late (close_current tc s))"
    and "ws (reconnect_timer_fire late (close_current tc s)) \<noteq> None"
proof -
  from assms(2) obtain k where k: "ws s = Some k" by auto
  then have c: "close_current tc s = ws_onclose k tc s" by (simp add: close_current_def)
  show "reconnectTimer (close_current tc s) = Some \<lparr>armed_at = tc, delay = reconnectDelay s\<rparr>"
    using assms(1) by (simp add: c ws_onclose_fields)
  then have f: "reconnect_timer_fire late (close_current tc s) =
      connect_socket (tc + reconnectDelay s + int late)
        ((ws_onclose k tc s)\<lparr>reconnectTimer := None,
           reconnectDelay := min (reconnectDelay s * 2) MAX_RECONNECT_DELAY\<rparr>)"
    by (simp add: reconnect_timer_fire_def c ws_onclose_fields)
  show "reconnectDelay (reconnect_timer_fire late (close_current tc s))
           = min (reconnectDelay s * 2) MAX_RECONNECT_DELAY"
    by (simp add: f connect_socket_keeps)
  show "\<not> intentionalClose (reconnect_timer_fire late (close_current tc s))"
    using assms(1) by (simp add: f connect_socket_keeps ws_onclose_fields)
  show "ws (reconnect_timer_fire late (close_current tc s)) \<noteq> None"
    unfolding f by (rule connect_socket_ws) (simp add: ws_onclose_fields k)
qed

lemma failed_attempts_delay:
  assumes "\<not> intentionalClose s" "ws s \<noteq> None"
    "reconnectDelay s = min (1000 * 2 ^ k) MAX_RECONNECT_DELAY"
  shows "\<not> intentionalClose (failed_attempts cs s) \<and> ws (failed_attempts cs s) \<noteq> None \<and>
         reconnectDelay (failed_attempts cs s) = min (1000 * 2 ^ (k + length cs)) MAX_RECONNECT_DELAY"
  using assms
proof (induction cs arbitrary: s k)
  case Nil
  then show ?case by simp
next
  case (Cons c cs)
  obtain tc late where c: "c = (tc, late)" by (cases c)
  let ?s1 = "reconnect_timer_fire late (close_current tc s)"
  have 1: "\<not> intentionalClose ?s1"
    using close_then_fire(3) [OF Cons.prems(1,2)] .
  have 2: "ws ?s1 \<noteq> None"
    using close_then_fire(4) [OF Cons.prems(1,2)] .
  have 3: "reconnectDelay ?s1 = min (1000 * 2 ^ Suc k) MAX_RECONNECT_DELAY"
    using close_then_fire(2) [OF Cons.prems(1,2), of late tc] Cons.prems(3) backoff_iterate [of k]
    by simp
  from Cons.IH [OF 1 2 3] c show ?case by simp
qed

text \<open>
  C2, as stated: after N consecutive unexpected closes the delay waited before the next
  attempt is min(floor * 2^N, ceiling). Already for N = 1 this fails: the first attempt is
  the one \<^verbatim>\<open>connect\<close> makes, and when its socket closes the timer is armed with the
  floor, 1000 ms, not with 2000 ms.

  The claim's last sentence, that the close after a successful open waits the floor, fails
  as well. The settings are saved while connected (\<^verbatim>\<open>Ntfy.disconnect(); connectNtfy()\<close>):
  the close event of the replaced socket 0 arrives when \<^verbatim>\<open>intentionalClose\<close> is false
  again and arms the reconnect timer; socket 1 opens; the timer fires and doubles the
  delay. Socket 1 is open with a stored delay of 2000 ms, and its first unexpected close
  waits 2000 ms.
\<close>

theorem backoff_delay_counterexample:
  "reconnectTimer (close_current 5000 (connect ''topic'' ''reply'' 0 ntfy_init))
     = Some \<lparr>armed_at = 5000, delay = 1000\<rparr> \<and>
   (1000 :: int) \<noteq> min (1000 * 2 ^ 1) MAX_RECONNECT_DELAY \<and>
   (let s0 = ws_onopen 0 1000 (connect ''topic'' ''reply'' 0 ntfy_init);
        s1 = connect ''topic'' ''reply'' 60000 (disconnect s0);
        s2 = ws_onopen 1 60300 (ws_onclose 0 60100 s1);
        s3 = reconnect_timer_fire 0 s2
    in ready s2 = Some OPEN \<and> reconnectDelay s2 = 1000 \<and>
       reconnectTimer s2 = Some \<lparr>armed_at = 60100, delay = 1000\<rparr> \<and>
       ready s3 = Some OPEN \<and> ws s3 = Some 1 \<and>
       reconnectTimer (close_current 70000 s3) = Some \<lparr>armed_at = 70000, delay = 2000\<rparr>)"
proof -
  let ?r0 = "\<lparr>sockets = [CONNECTING], ws = Some 0, topic = ''topic'', replyTopic = ''reply'',
    reconnectDelay = 1000, reconnectTimer = None, intentionalClose = False, lastSince = None,
    watchdogTimer = None, stored_since = None, storage_fails = False,
    statuses = [Reconnecting], fetches = [- 3600], posts = []\<rparr>"
  let ?s0 = "?r0\<lparr>sockets := [OPEN], watchdogTimer := Some \<lparr>armed_at = 1000, delay = 55000\<rparr>,
    statuses := [Reconnecting, Connected]\<rparr>"
  let ?d = "?s0\<lparr>sockets := [CLOSING], intentionalClose := True, watchdogTimer := None,
    statuses := [Reconnecting, Connected, Disconnected]\<rparr>"
  let ?s1 = "?d\<lparr>sockets := [CLOSING, CONNECTING], ws := Some 1, intentionalClose := False,
    statuses := [Reconnecting, Connected, Disconnected, Reconnecting],
    fetches := [- 3600, - 3540]\<rparr>"
  let ?a1 = "?s1\<lparr>sockets := [CLOSED, CONNECTING],
    reconnectTimer := Some \<lparr>armed_at = 60100, delay = 1000\<rparr>,
    statuses := [Reconnecting, Connected, Disconnected, Reconnecting, Disconnected]\<rparr>"
  let ?s2 = "?a1\<lparr>sockets := [CLOSED, OPEN],
    watchdogTimer := Some \<lparr>armed_at = 60300, delay = 55000\<rparr>,
    statuses := [Reconnecting, Connected, Disconnected, Reconnecting, Disconnected, Connected]\<rparr>"
  let ?s3 = "?s2\<lparr>reconnectDelay := 2000, reconnectTimer := None\<rparr>"
  have c: "reconnectTimer (close_current 5000 (connect ''topic'' ''reply'' 0 ntfy_init))
     = Some \<lparr>armed_at = 5000, delay = 1000\<rparr> \<and>
   (1000 :: int) \<noteq> min (1000 * 2 ^ 1) MAX_RECONNECT_DELAY"
    by (simp add: close_current_def ws_onclose_def connect_def connect_socket_def
      loadLastSince_def ntfy_init_def scheduleReconnect_def setStatus_def clearWatchdog_def
      fetchRecent_start_def set_ready_def ready_def MAX_RECONNECT_DELAY_def Let_def)
  have e0: "connect ''topic'' ''reply'' 0 ntfy_init = ?r0"
    by (simp add: connect_def connect_socket_def loadLastSince_def ntfy_init_def setStatus_def
        fetchRecent_start_def ready_def catchup_since_def)
  have e1: "ws_onopen 0 1000 ?r0 = ?s0"
    by (simp add: ws_onopen_def setStatus_def set_ready_def resetWatchdog_def WATCHDOG_MS_def)
  have e2: "disconnect ?s0 = ?d"
    by (simp add: disconnect_def ws_close_def clearWatchdog_def setStatus_def ready_def
        set_ready_def)
  have e3: "connect ''topic'' ''reply'' 60000 ?d = ?s1"
    by (simp add: connect_def connect_socket_def loadLastSince_def setStatus_def
        fetchRecent_start_def ready_def catchup_since_def)
  have e4: "ws_onclose 0 60100 ?s1 = ?a1"
    by (simp add: ws_onclose_def Let_def clearWatchdog_def scheduleReconnect_def setStatus_def
        set_ready_def)
  have e5: "ws_onopen 1 60300 ?a1 = ?s2"
    by (simp add: ws_onopen_def setStatus_def set_ready_def resetWatchdog_def WATCHDOG_MS_def)
  have e6: "reconnect_timer_fire 0 ?s2 = ?s3"
    by (simp add: reconnect_timer_fire_def connect_socket_def ready_def MAX_RECONNECT_DELAY_def)
  have e7: "reconnectTimer (close_current 70000 ?s3) = Some \<lparr>armed_at = 70000, delay = 2000\<rparr>"
    by (simp add: close_current_def ws_onclose_fields)
  have r: "ready ?s2 = Some OPEN" "ready ?s3 = Some OPEN"
    by (simp_all add: ready_def)
  have "(let s0 = ws_onopen 0 1000 (connect ''topic'' ''reply'' 0 ntfy_init);
        s1 = connect ''topic'' ''reply'' 60000 (disconnect s0);
        s2 = ws_onopen 1 60300 (ws_onclose 0 60100 s1);
        s3 = reconnect_timer_fire 0 s2
    in ready s2 = Some OPEN \<and> reconnectDelay s2 = 1000 \<and>
       reconnectTimer s2 = Some \<lparr>armed_at = 60100, delay = 1000\<rparr> \<and>
       ready s3 = Some OPEN \<and> ws s3 = Some 1 \<and>
       reconnectTimer (close_current 70000 s3) = Some \<lparr>armed_at = 70000, delay = 2000\<rparr>)"
    unfolding Let_def e0 e1 e2 e3 e4 e5 e6
    using r e7 by simp
  with c show ?thesis by blast
qed

text \<open>
  C2, amended. For every N \<ge> 1: start with the stored delay at the floor of 1000 ms and
  let the current socket close unexpectedly N times, each close but the last followed by
  the firing of the reconnect timer it armed, with no open and no other event in between.
  The timer armed by the N-th close (the delay waited before attempt N + 1) has the delay
  min(1000 * 2^(N - 1), 10000);
  when that timer fires the stored delay becomes min(1000 * 2^N, 10000), which is what the
  next close will wait. The open handler of a socket sets the stored delay back to the
  floor, and a close that follows the open with nothing but frames and catch-up results in
  between arms the timer with the floor.
\<close>

theorem backoff_delay_after_closes:
  assumes "reconnectDelay s = 1000" and "\<not> intentionalClose s" and "ws s \<noteq> None"
    and "length cs + 1 = N"
  shows "reconnectTimer (close_current tc (failed_attempts cs s))
           = Some \<lparr>armed_at = tc, delay = min (1000 * 2 ^ (N - 1)) MAX_RECONNECT_DELAY\<rparr> \<and>
         reconnectDelay (reconnect_timer_fire late (close_current tc (failed_attempts cs s)))
           = min (1000 * 2 ^ N) MAX_RECONNECT_DELAY \<and>
         reconnectDelay (ws_onopen k t (failed_attempts cs s)) = 1000 \<and>
         reconnectTimer
           (ws_onclose k tc' (snd (deliveries ds (ws_onopen k t (failed_attempts cs s)))))
           = Some \<lparr>armed_at = tc', delay = 1000\<rparr>"
proof -
  have "reconnectDelay s = min (1000 * 2 ^ 0) MAX_RECONNECT_DELAY"
    using assms(1) by (simp add: MAX_RECONNECT_DELAY_def)
  from failed_attempts_delay [OF assms(2,3) this, of cs] assms(4)
  have ni: "\<not> intentionalClose (failed_attempts cs s)"
    and ws: "ws (failed_attempts cs s) \<noteq> None"
    and rd: "reconnectDelay (failed_attempts cs s) = min (1000 * 2 ^ (N - 1)) MAX_RECONNECT_DELAY"
    by auto
  have 1: "reconnectTimer (close_current tc (failed_attempts cs s))
           = Some \<lparr>armed_at = tc, delay = min (1000 * 2 ^ (N - 1)) MAX_RECONNECT_DELAY\<rparr>"
    using close_then_fire(1) [OF ni ws, of tc] rd by simp
  have "N = Suc (N - 1)" using assms(4) by simp
  then have "min (min (1000 * 2 ^ (N - 1)) MAX_RECONNECT_DELAY * 2) MAX_RECONNECT_DELAY
          = min (1000 * 2 ^ N) MAX_RECONNECT_DELAY"
    using backoff_iterate [of "N - 1"] by simp
  then have 2: "reconnectDelay (reconnect_timer_fire late (close_current tc (failed_attempts cs s)))
           = min (1000 * 2 ^ N) MAX_RECONNECT_DELAY"
    using close_then_fire(2) [OF ni ws, of late tc] rd by simp
  let ?o = "ws_onopen k t (failed_attempts cs s)"
  have 3: "reconnectDelay ?o = 1000"
    by (simp add: ws_onopen_def resetWatchdog_def setStatus_def set_ready_def)
  have "conn_fields (snd (deliveries ds ?o)) = conn_fields ?o"
    by (rule deliveries_conn_fields)
  then have "reconnectDelay (snd (deliveries ds ?o)) = 1000"
    "\<not> intentionalClose (snd (deliveries ds ?o))"
    using ni by (simp_all add: conn_fields_def ws_onopen_def resetWatchdog_def setStatus_def
        set_ready_def)
  then have 4: "reconnectTimer (ws_onclose k tc' (snd (deliveries ds ?o)))
           = Some \<lparr>armed_at = tc', delay = 1000\<rparr>"
    by (simp add: ws_onclose_def scheduleReconnect_def setStatus_def clearWatchdog_def
        set_ready_def Let_def)
  from 1 2 3 4 show ?thesis by blast
qed

theorem backoff_delay_after_closes_witness:
  "reconnectTimer (close_current 40000
      (failed_attempts [(5000, 0), (7000, 0), (10000, 1), (15000, 0)]
         (connect ''topic'' ''reply'' 0 ntfy_init)))
     = Some \<lparr>armed_at = 40000, delay = 10000\<rparr> \<and>
   reconnectTimer (close_current 5000 (connect ''topic'' ''reply'' 0 ntfy_init))
     = Some \<lparr>armed_at = 5000, delay = 1000\<rparr> \<and>
   reconnectDelay (reconnect_timer_fire 0
      (close_current 5000 (connect ''topic'' ''reply'' 0 ntfy_init))) = 2000 \<and>
   reconnectTimer (ws_onclose 4 90000 (snd (deliveries [Live 60000 Unparseable]
      (ws_onopen 4 50000
        (failed_attempts [(5000, 0), (7000, 0), (10000, 1), (15000, 0)]
           (connect ''topic'' ''reply'' 0 ntfy_init))))))
     = Some \<lparr>armed_at = 90000, delay = 1000\<rparr>"
proof -
  let ?s = "connect ''topic'' ''reply'' 0 ntfy_init"
  let ?cs = "[(5000, 0), (7000, 0), (10000, 1), (15000 :: int, 0 :: nat)]"
  have rd: "reconnectDelay ?s = 1000"
    by (simp add: connect_def connect_socket_def loadLastSince_def ntfy_init_def
        setStatus_def fetchRecent_start_def ready_def)
  have ni: "\<not> intentionalClose ?s"
    by (simp add: connect_def connect_socket_def loadLastSince_def ntfy_init_def
        setStatus_def fetchRecent_start_def ready_def)
  have ws: "ws ?s \<noteq> None"
    by (simp add: connect_def connect_socket_def loadLastSince_def ntfy_init_def
        setStatus_def fetchRecent_start_def ready_def)
  have 5: "length ?cs + 1 = 5" by simp
  have 1: "length ([] :: (int \<times> nat) list) + 1 = 1" by simp
  from backoff_delay_after_closes [OF rd ni ws 5, of 40000 0 4 50000 90000 "[Live 60000 Unparseable]"]
    backoff_delay_after_closes [OF rd ni ws 1, of 5000 0 0 0 0 "[]"]
  show ?thesis by (simp add: MAX_RECONNECT_DELAY_def del: deliveries.simps)
qed

subsection \<open>Staleness watchdog\<close>

text \<open>
  After the current socket has opened and any frames and catch-up results have been
  handled, with no other event in between, the watchdog is due 55000 ms after the last
  frame (after the open when there was none). When it fires the socket is told to close;
  its close event clears the watchdog, reports the status disconnected and arms the
  reconnect timer with the floor of 1000 ms.
\<close>

lemma ready_watchdog_update: "ready (s\<lparr>watchdogTimer := v\<rparr>) = ready s"
  by (cases "ws s") (simp_all add: ready_def)

lemma watchdog_after_open:
  assumes "\<not> intentionalClose s" "ws s = Some k" "k < length (sockets s)"
  shows "watchdogTimer (snd (deliveries ds (ws_onopen k t s)))
           = Some \<lparr>armed_at = last_activity t ds, delay = WATCHDOG_MS\<rparr> \<and>
         ready (watchdog_fire (snd (deliveries ds (ws_onopen k t s)))) = Some CLOSING \<and>
         ready (ws_onclose k tc (watchdog_fire (snd (deliveries ds (ws_onopen k t s)))))
           = Some CLOSED \<and>
         watchdogTimer (ws_onclose k tc (watchdog_fire (snd (deliveries ds (ws_onopen k t s)))))
           = None \<and>
         reconnectTimer (ws_onclose k tc (watchdog_fire (snd (deliveries ds (ws_onopen k t s)))))
           = Some \<lparr>armed_at = tc, delay = 1000\<rparr> \<and>
         statuses (ws_onclose k tc (watchdog_fire (snd (deliveries ds (ws_onopen k t s)))))
           = statuses s @ [Connected, Disconnected]"
proof -
  let ?o = "ws_onopen k t s"
  let ?c = "snd (deliveries ds ?o)"
  have wo: "watchdogTimer ?o = Some \<lparr>armed_at = t, delay = WATCHDOG_MS\<rparr>"
    by (simp add: ws_onopen_def resetWatchdog_def setStatus_def)
  have wd: "watchdogTimer ?c = Some \<lparr>armed_at = last_activity t ds, delay = WATCHDOG_MS\<rparr>"
    using wo by (rule deliveries_watchdog)
  have "conn_fields ?c = conn_fields ?o" by (rule deliveries_conn_fields)
  then have cf: "sockets ?c = (sockets s)[k := OPEN]" "ws ?c = Some k"
    "reconnectDelay ?c = 1000" "\<not> intentionalClose ?c"
    "statuses ?c = statuses s @ [Connected]"
    using assms
    by (simp_all add: conn_fields_def ws_onopen_def resetWatchdog_def setStatus_def set_ready_def)
  have rc: "ready ?c = Some OPEN"
    using cf(1,2) assms(3) by (simp add: ready_def)
  have rc': "ready (?c\<lparr>watchdogTimer := None\<rparr>) = Some OPEN"
    using rc by (simp add: ready_watchdog_update)
  have fire: "watchdog_fire ?c = set_ready k CLOSING (?c\<lparr>watchdogTimer := None\<rparr>)"
    using wd cf(2) rc' by (simp add: watchdog_fire_def ws_close_def)
  have 1: "ready (watchdog_fire ?c) = Some CLOSING"
    using cf(1,2) assms(3) by (simp add: fire ready_def set_ready_def)
  have 2: "ready (ws_onclose k tc (watchdog_fire ?c)) = Some CLOSED"
    using cf assms(3)
    by (simp add: fire ws_onclose_def Let_def clearWatchdog_def scheduleReconnect_def
        setStatus_def ready_def set_ready_def)
  have 3: "watchdogTimer (ws_onclose k tc (watchdog_fire ?c)) = None"
    by (simp add: ws_onclose_fields)
  have 4: "reconnectTimer (ws_onclose k tc (watchdog_fire ?c))
      = Some \<lparr>armed_at = tc, delay = 1000\<rparr>"
    using cf by (simp add: ws_onclose_fields fire set_ready_def)
  have 5: "statuses (ws_onclose k tc (watchdog_fire ?c)) = statuses s @ [Connected, Disconnected]"
    using cf by (simp add: fire ws_onclose_def Let_def clearWatchdog_def scheduleReconnect_def
        setStatus_def set_ready_def)
  from wd 1 2 3 4 5 show ?thesis by blast
qed

text \<open>
  C3. The watchdog is to close a connected socket that has been silent for 55000 ms, and
  the reconnect is to be armed with the floor. Both fail after the settings have been
  saved while connected (\<^verbatim>\<open>Ntfy.disconnect(); connectNtfy()\<close>): \<^verbatim>\<open>connect\<close> sets
  \<^verbatim>\<open>intentionalClose\<close> back to false and opens socket 1 before the close event of socket
  0 has been dispatched, and the \<^verbatim>\<open>onclose\<close> of socket 0 then runs on the shared
  variables as if the connection had been lost.

  In the first run below the close event of socket 0 comes before socket 1 opens. It arms
  the reconnect timer; the timer fires once socket 1 is open and doubles the delay, so the
  socket is open with a stored delay of 2000 ms, and when the watchdog closes it the
  reconnect is armed with 2000 ms, not with the floor.

  In the second run the close event of socket 0 comes after socket 1 has opened. It clears
  the watchdog of socket 1 and arms the reconnect timer; when that timer has fired (the
  socket is open, so no new one is made) the socket is open with no timer pending at all,
  so with no frame arriving nothing closes it.
\<close>

theorem watchdog_after_settings_save:
  "(let s0 = ws_onopen 0 1000 (connect ''topic'' ''reply'' 0 ntfy_init);
        s1 = connect ''topic'' ''reply'' 60000 (disconnect s0);
        a = reconnect_timer_fire 0 (ws_onopen 1 60300 (ws_onclose 0 60100 s1));
        b = ws_onclose 0 60400 (ws_onopen 1 60300 s1);
        c = reconnect_timer_fire 0 b
    in ready s0 = Some OPEN \<and> reconnectDelay s0 = 1000 \<and>
       ready a = Some OPEN \<and> reconnectDelay a = 2000 \<and>
       watchdogTimer a = Some \<lparr>armed_at = 60300, delay = 55000\<rparr> \<and>
       ready (watchdog_fire a) = Some CLOSING \<and>
       reconnectTimer (ws_onclose 1 115400 (watchdog_fire a))
         = Some \<lparr>armed_at = 115400, delay = 2000\<rparr> \<and>
       ready b = Some OPEN \<and> watchdogTimer b = None \<and> watchdog_fire b = b \<and>
       ready c = Some OPEN \<and> ws c = Some 1 \<and> watchdogTimer c = None \<and>
       reconnectTimer c = None \<and> watchdog_fire c = c)"
proof -
  let ?r0 = "\<lparr>sockets = [CONNECTING], ws = Some 0, topic = ''topic'', replyTopic = ''reply'',
    reconnectDelay = 1000, reconnectTimer = None, intentionalClose = False, lastSince = None,
    watchdogTimer = None, stored_since = None, storage_fails = False,
    statuses = [Reconnecting], fetches = [- 3600], posts = []\<rparr>"
  let ?s0 = "?r0\<lparr>sockets := [OPEN], watchdogTimer := Some \<lparr>armed_at = 1000, delay = 55000\<rparr>,
    statuses := [Reconnecting, Connected]\<rparr>"
  let ?d = "?s0\<lparr>sockets := [CLOSING], intentionalClose := True, watchdogTimer := None,
    statuses := [Reconnecting, Connected, Disconnected]\<rparr>"
  let ?s1 = "?d\<lparr>sockets := [CLOSING, CONNECTING], ws := Some 1, intentionalClose := False,
    statuses := [Reconnecting, Connected, Disconnected, Reconnecting],
    fetches := [- 3600, - 3540]\<rparr>"
  let ?a1 = "?s1\<lparr>sockets := [CLOSED, CONNECTING],
    reconnectTimer := Some \<lparr>armed_at = 60100, delay = 1000\<rparr>,
    statuses := [Reconnecting, Connected, Disconnected, Reconnecting, Disconnected]\<rparr>"
  let ?a2 = "?a1\<lparr>sockets := [CLOSED, OPEN],
    watchdogTimer := Some \<lparr>armed_at = 60300, delay = 55000\<rparr>,
    statuses := [Reconnecting, Connected, Disconnected, Reconnecting, Disconnected, Connected]\<rparr>"
  let ?a = "?a2\<lparr>reconnectDelay := 2000, reconnectTimer := None\<rparr>"
  let ?af = "?a\<lparr>sockets := [CLOSED, CLOSING], watchdogTimer := None\<rparr>"
  let ?b1 = "?s1\<lparr>sockets := [CLOSING, OPEN],
    watchdogTimer := Some \<lparr>armed_at = 60300, delay = 55000\<rparr>,
    statuses := [Reconnecting, Connected, Disconnected, Reconnecting, Connected]\<rparr>"
  let ?b = "?b1\<lparr>sockets := [CLOSED, OPEN], watchdogTimer := None,
    reconnectTimer := Some \<lparr>armed_at = 60400, delay = 1000\<rparr>,
    statuses := [Reconnecting, Connected, Disconnected, Reconnecting, Connected, Disconnected]\<rparr>"
  let ?c = "?b\<lparr>reconnectDelay := 2000, reconnectTimer := None\<rparr>"
  have e0: "connect ''topic'' ''reply'' 0 ntfy_init = ?r0"
    by (simp add: connect_def connect_socket_def loadLastSince_def ntfy_init_def setStatus_def
        fetchRecent_start_def ready_def catchup_since_def)
  have e1: "ws_onopen 0 1000 ?r0 = ?s0"
    by (simp add: ws_onopen_def setStatus_def set_ready_def resetWatchdog_def WATCHDOG_MS_def)
  have e2: "disconnect ?s0 = ?d"
    by (simp add: disconnect_def ws_close_def clearWatchdog_def setStatus_def ready_def
        set_ready_def)
  have e3: "connect ''topic'' ''reply'' 60000 ?d = ?s1"
    by (simp add: connect_def connect_socket_def loadLastSince_def setStatus_def
        fetchRecent_start_def ready_def catchup_since_def)
  have e4: "ws_onclose 0 60100 ?s1 = ?a1"
    by (simp add: ws_onclose_def Let_def clearWatchdog_def scheduleReconnect_def setStatus_def
        set_ready_def)
  have e5: "ws_onopen 1 60300 ?a1 = ?a2"
    by (simp add: ws_onopen_def setStatus_def set_ready_def resetWatchdog_def WATCHDOG_MS_def)
  have e6: "reconnect_timer_fire 0 ?a2 = ?a"
    by (simp add: reconnect_timer_fire_def connect_socket_def ready_def MAX_RECONNECT_DELAY_def)
  have e7: "watchdog_fire ?a = ?af"
    by (simp add: watchdog_fire_def ws_close_def ready_def set_ready_def)
  have e8: "reconnectTimer (ws_onclose 1 115400 ?af) = Some \<lparr>armed_at = 115400, delay = 2000\<rparr>"
    by (simp add: ws_onclose_fields)
  have e9: "ws_onopen 1 60300 ?s1 = ?b1"
    by (simp add: ws_onopen_def setStatus_def set_ready_def resetWatchdog_def WATCHDOG_MS_def)
  have e10: "ws_onclose 0 60400 ?b1 = ?b"
    by (simp add: ws_onclose_def Let_def clearWatchdog_def scheduleReconnect_def setStatus_def
        set_ready_def)
  have e11: "watchdog_fire ?b = ?b"
    by (simp add: watchdog_fire_def)
  have e12: "reconnect_timer_fire 0 ?b = ?c"
    by (simp add: reconnect_timer_fire_def connect_socket_def ready_def MAX_RECONNECT_DELAY_def)
  have e13: "watchdog_fire ?c = ?c"
    by (simp add: watchdog_fire_def)
  have r: "ready ?s0 = Some OPEN" "ready ?a = Some OPEN" "ready ?af = Some CLOSING"
    "ready ?b = Some OPEN" "ready ?c = Some OPEN"
    by (simp_all add: ready_def)
  show ?thesis
    unfolding Let_def e0 e1 e2 e3 e4 e5 e6 e7 e9 e10 e11 e12 e13
    using r e8 by simp
qed

section \<open>Properties of the orchestrator\<close>

subsection \<open>Deduplication\<close>

lemma find_notification_None: "find_notification i s = None \<longleftrightarrow> stored_count i s = 0"
  by (auto simp: find_notification_def stored_count_def find_None_iff filter_empty_conv)

lemma handleMessage_seen: "n_id n \<in> set (seenIds s) \<Longrightarrow> handleMessage n s = (None, s)"
  by (simp add: handleMessage_def)

lemma presents_simps [simp]:
  "\<not> presents i (SaveSeen xs)" "\<not> presents i Vibrate" "\<not> presents i Beep"
  "\<not> presents i (SaveHistory ns)" "\<not> presents i (Sleep d)"
  "\<not> presents i (RenderThrew ns)"
  "presents i (RenderDashboard (n # ns)) = (n_id n = i)"
  "\<not> presents i (RenderDashboard [])"
  by (simp_all add: presents_def)

lemma haptic_fields [simp]:
  "notifications (haptic s) = notifications s"
  "seenIds (haptic s) = seenIds s"
  "next_ref (haptic s) = next_ref s"
  "seen_write_throws (haptic s) = seen_write_throws s"
  "history_write_throws (haptic s) = history_write_throws s"
  "presented_count i (haptic s) = presented_count i s"
  by (simp_all add: haptic_def emit_def Let_def presented_count_def)

lemma saveHistory_fields [simp]:
  "notifications (snd (saveHistory s)) = notifications s"
  "seenIds (snd (saveHistory s)) = seenIds s"
  "seen_write_throws (snd (saveHistory s)) = seen_write_throws s"
  "history_write_throws (snd (saveHistory s)) = history_write_throws s"
  "presented_count i (snd (saveHistory s)) = presented_count i s"
  by (simp_all add: saveHistory_def emit_def presented_count_def)

lemma renderDashboard_fields [simp]:
  "notifications (snd (renderDashboard s)) = notifications s"
  "seenIds (snd (renderDashboard s)) = seenIds s"
  "seen_write_throws (snd (renderDashboard s)) = seen_write_throws s"
  "history_write_throws (snd (renderDashboard s)) = history_write_throws s"
  by (simp_all add: renderDashboard_def emit_def Let_def)

lemma renderDashboard_presented:
  "presented_count i (snd (renderDashboard s)) =
     presented_count i s +
       (if \<not> list_ex card_throws (pending_of (map snd (notifications s))) \<and>
           (\<exists>r n rest. notifications s = (r, n) # rest \<and> n_id n = i)
        then 1 else 0)"
  by (cases "notifications s")
    (auto simp: renderDashboard_def emit_def Let_def presented_count_def)

lemma renderDashboard_threw:
  "fst (renderDashboard s) = None \<longleftrightarrow>
     \<not> list_ex card_throws (pending_of (map snd (notifications s)))"
  by (simp add: renderDashboard_def Let_def)

text \<open>
  What one call of the handler does to the stored notifications, the seen-set and the
  count of presentations. \<open>stores n s\<close> says that the call gets as far as putting the
  notification in front.
\<close>

lemma handleMessage_effect:
  fixes n s
  defines "stores \<equiv> n_id n \<notin> set (seenIds s) \<and> \<not> seen_write_throws s \<and>
                     stored_count (n_id n) s = 0"
  shows "notifications (snd (handleMessage n s)) =
           (if stores then (next_ref s, n) # notifications s else notifications s)"
    and "seenIds (snd (handleMessage n s)) =
           (if n_id n \<in> set (seenIds s) then seenIds s else seenIds s @ [n_id n])"
    and "seen_write_throws (snd (handleMessage n s)) = seen_write_throws s"
    and "presented_count i (snd (handleMessage n s)) =
           presented_count i s +
             (if stores \<and> n_id n = i \<and>
                 \<not> list_ex card_throws (pending_of (n # map snd (notifications s)))
              then 1 else 0)"
proof -
  let ?s0 = "s\<lparr>seenIds := seenIds s @ [n_id n]\<rparr>"
  let ?s1 = "emit (SaveSeen (drop (length (seenIds ?s0) - 200) (seenIds ?s0))) ?s0"
  let ?s2 = "?s1\<lparr>notifications := (next_ref ?s1, n) # notifications ?s1,
                  next_ref := Suc (next_ref ?s1)\<rparr>"
  let ?s3 = "if is_actionable (n_type n) then haptic ?s2 else ?s2"
  have f: "find_notification (n_id n) ?s1 = None \<longleftrightarrow> stored_count (n_id n) s = 0"
    using find_notification_None [of "n_id n" s]
    by (simp add: find_notification_def emit_def)
  have s3: "notifications ?s3 = (next_ref s, n) # notifications s"
    "seenIds ?s3 = seenIds s @ [n_id n]" "seen_write_throws ?s3 = seen_write_throws s"
    "presented_count i ?s3 = presented_count i s"
    by (simp_all add: emit_def presented_count_def haptic_def Let_def)
  consider (seen) "n_id n \<in> set (seenIds s)"
    | (throws) "n_id n \<notin> set (seenIds s)" "seen_write_throws s"
    | (old) "n_id n \<notin> set (seenIds s)" "\<not> seen_write_throws s" "stored_count (n_id n) s \<noteq> 0"
    | (new) "n_id n \<notin> set (seenIds s)" "\<not> seen_write_throws s" "stored_count (n_id n) s = 0"
    by blast
  then have "notifications (snd (handleMessage n s)) =
           (if stores then (next_ref s, n) # notifications s else notifications s) \<and>
     seenIds (snd (handleMessage n s)) =
           (if n_id n \<in> set (seenIds s) then seenIds s else seenIds s @ [n_id n]) \<and>
     seen_write_throws (snd (handleMessage n s)) = seen_write_throws s \<and>
     presented_count i (snd (handleMessage n s)) =
           presented_count i s +
             (if stores \<and> n_id n = i \<and>
                 \<not> list_ex card_throws (pending_of (n # map snd (notifications s)))
              then 1 else 0)"
  proof cases
    case seen
    then show ?thesis by (simp add: handleMessage_seen stores_def)
  next
    case throws
    then have "handleMessage n s = (Some QuotaExceededError, ?s0)"
      by (simp add: handleMessage_def saveSeen_def)
    with throws show ?thesis by (simp add: stores_def presented_count_def)
  next
    case old
    then obtain e where "find_notification (n_id n) ?s1 = Some e"
      using f by (cases "find_notification (n_id n) ?s1") auto
    with old have "handleMessage n s = (None, ?s1)"
      by (simp add: handleMessage_def saveSeen_def)
    with old show ?thesis by (simp add: stores_def emit_def presented_count_def)
  next
    case new
    then have fn: "find_notification (n_id n) ?s1 = None" using f by simp
    have hm: "handleMessage n s =
        (case renderDashboard ?s3 of
           (Some e, s4) \<Rightarrow> (Some e, s4)
         | (None, s4) \<Rightarrow> saveHistory s4)"
      using new fn by (simp add: handleMessage_def saveSeen_def Let_def)
    have sn: "snd (handleMessage n s) = snd (renderDashboard ?s3) \<or>
              snd (handleMessage n s) = snd (saveHistory (snd (renderDashboard ?s3)))"
      unfolding hm by (cases "renderDashboard ?s3") (auto split: option.splits)
    have pc: "presented_count i (snd (renderDashboard ?s3)) =
        presented_count i s +
          (if n_id n = i \<and> \<not> list_ex card_throws (pending_of (n # map snd (notifications s)))
           then 1 else 0)"
      using renderDashboard_presented [of i ?s3] s3 by auto
    from sn show ?thesis
    proof
      assume e: "snd (handleMessage n s) = snd (renderDashboard ?s3)"
      show ?thesis
        unfolding e using new s3 pc by (simp add: stores_def)
    next
      assume e: "snd (handleMessage n s) = snd (saveHistory (snd (renderDashboard ?s3)))"
      show ?thesis
        unfolding e using new s3 pc by (simp add: stores_def)
    qed
  qed
  then show "notifications (snd (handleMessage n s)) =
           (if stores then (next_ref s, n) # notifications s else notifications s)"
    and "seenIds (snd (handleMessage n s)) =
           (if n_id n \<in> set (seenIds s) then seenIds s else seenIds s @ [n_id n])"
    and "seen_write_throws (snd (handleMessage n s)) = seen_write_throws s"
    and "presented_count i (snd (handleMessage n s)) =
           presented_count i s +
             (if stores \<and> n_id n = i \<and>
                 \<not> list_ex card_throws (pending_of (n # map snd (notifications s)))
              then 1 else 0)"
    by simp_all
qed

lemma handleMessage_other:
  assumes "n_id n \<noteq> i"
  shows "stored_count i (snd (handleMessage n s)) = stored_count i s"
    and "presented_count i (snd (handleMessage n s)) = presented_count i s"
    and "i \<in> set (seenIds (snd (handleMessage n s))) \<longleftrightarrow> i \<in> set (seenIds s)"
  using assms handleMessage_effect(1,2) [of n s] handleMessage_effect(4) [of i n s]
  by (auto simp: stored_count_def)

lemma handleMessage_new:
  assumes "n_id n \<notin> set (seenIds s)" and "stored_count (n_id n) s = 0"
  shows "stored_count (n_id n) (snd (handleMessage n s)) = (if seen_write_throws s then 0 else 1)"
    and "presented_count (n_id n) (snd (handleMessage n s)) =
           presented_count (n_id n) s +
             (if \<not> seen_write_throws s \<and>
                 \<not> list_ex card_throws (pending_of (n # map snd (notifications s)))
              then 1 else 0)"
    and "n_id n \<in> set (seenIds (snd (handleMessage n s)))"
  using assms handleMessage_effect(1,2) [of n s] handleMessage_effect(4) [of "n_id n" n s]
  by (auto simp: stored_count_def)

lemma handle_all_seen:
  "i \<in> set (seenIds s) \<Longrightarrow>
   stored_count i (handle_all ns s) = stored_count i s \<and>
   presented_count i (handle_all ns s) = presented_count i s \<and>
   i \<in> set (seenIds (handle_all ns s))"
proof (induction ns arbitrary: s)
  case Nil
  then show ?case by simp
next
  case (Cons n ns)
  show ?case
  proof (cases "n_id n = i")
    case True
    with Cons.prems have "handleMessage n s = (None, s)" by (simp add: handleMessage_seen)
    with Cons show ?thesis by simp
  next
    case False
    from handleMessage_other [OF False, of s] Cons.prems
    have "i \<in> set (seenIds (snd (handleMessage n s)))"
      and "stored_count i (snd (handleMessage n s)) = stored_count i s"
      and "presented_count i (snd (handleMessage n s)) = presented_count i s"
      by simp_all
    with Cons.IH [of "snd (handleMessage n s)"] show ?thesis by simp
  qed
qed

text \<open>
  Whatever is thrown on the way, a notification id that is new to the orchestrator is
  stored at most once and presented at most once over any sequence of calls.
\<close>

lemma handle_all_at_most_once:
  "i \<notin> set (seenIds s) \<Longrightarrow> stored_count i s = 0 \<Longrightarrow>
   stored_count i (handle_all ns s) \<le> 1 \<and>
   presented_count i (handle_all ns s) \<le> presented_count i s + 1"
proof (induction ns arbitrary: s)
  case Nil
  then show ?case by simp
next
  case (Cons n ns)
  show ?case
  proof (cases "n_id n = i")
    case True
    from handleMessage_new [of n s] True Cons.prems
    have "stored_count i (snd (handleMessage n s)) \<le> 1"
      and "presented_count i (snd (handleMessage n s)) \<le> presented_count i s + 1"
      and "i \<in> set (seenIds (snd (handleMessage n s)))"
      by (simp_all split: if_splits)
    with handle_all_seen [of i "snd (handleMessage n s)" ns] show ?thesis by simp
  next
    case False
    from handleMessage_other [OF False, of s] Cons.prems
    have "i \<notin> set (seenIds (snd (handleMessage n s)))"
      and "stored_count i (snd (handleMessage n s)) = 0"
      and "presented_count i (snd (handleMessage n s)) = presented_count i s"
      by simp_all
    with Cons.IH [of "snd (handleMessage n s)"] show ?thesis by simp
  qed
qed

lemma pending_of_throws:
  "list_ex card_throws (pending_of ns) \<Longrightarrow> list_ex card_throws ns"
  by (auto simp: pending_of_def list_ex_iff)

text \<open>
  When the write of the seen-set does not throw and no card of a stored or delivered
  notification throws while it is drawn, a new id that is delivered at least once is
  stored exactly once and presented exactly once.
\<close>

lemma handle_all_once:
  "i \<notin> set (seenIds s) \<Longrightarrow> stored_count i s = 0 \<Longrightarrow> i \<in> n_id ` set ns \<Longrightarrow>
   \<not> seen_write_throws s \<Longrightarrow> \<not> list_ex card_throws (map snd (notifications s)) \<Longrightarrow>
   \<not> list_ex card_throws ns \<Longrightarrow>
   stored_count i (handle_all ns s) = 1 \<and>
   presented_count i (handle_all ns s) = presented_count i s + 1 \<and>
   i \<in> set (seenIds (handle_all ns s))"
proof (induction ns arbitrary: s)
  case Nil
  then show ?case by simp
next
  case (Cons n ns)
  have nc: "\<not> list_ex card_throws (n # map snd (notifications s))"
    using Cons.prems(5,6) by simp
  then have np: "\<not> list_ex card_throws (pending_of (n # map snd (notifications s)))"
    using pending_of_throws by blast
  show ?case
  proof (cases "n_id n = i")
    case True
    from handleMessage_new [of n s] True Cons.prems np
    have "stored_count i (snd (handleMessage n s)) = 1"
      and "presented_count i (snd (handleMessage n s)) = presented_count i s + 1"
      and "i \<in> set (seenIds (snd (handleMessage n s)))"
      by simp_all
    with handle_all_seen [of i "snd (handleMessage n s)" ns] show ?thesis by simp
  next
    case False
    from handleMessage_other [OF False, of s] Cons.prems
    have "i \<notin> set (seenIds (snd (handleMessage n s)))"
      and "stored_count i (snd (handleMessage n s)) = 0"
      and "presented_count i (snd (handleMessage n s)) = presented_count i s"
      by simp_all
    moreover have "i \<in> n_id ` set ns" using Cons.prems(3) False by auto
    moreover have "\<not> seen_write_throws (snd (handleMessage n s))"
      using handleMessage_effect(3) [of n s] Cons.prems(4) by simp
    moreover have "\<not> list_ex card_throws (map snd (notifications (snd (handleMessage n s))))"
      using handleMessage_effect(1) [of n s] nc Cons.prems(5) by (simp split: if_splits)
    moreover have "\<not> list_ex card_throws ns" using Cons.prems(6) by simp
    ultimately show ?thesis using Cons.IH [of "snd (handleMessage n s)"] by simp
  qed
qed

text \<open>
  When the write of the seen-set throws, no call stores or presents anything; each call
  only adds its id to the seen-set in memory.
\<close>

lemma handle_all_storage_throws:
  "seen_write_throws s \<Longrightarrow>
   notifications (handle_all ns s) = notifications s \<and>
   presented_count i (handle_all ns s) = presented_count i s \<and>
   set (seenIds (handle_all ns s)) = set (seenIds s) \<union> n_id ` set ns"
proof (induction ns arbitrary: s)
  case Nil
  then show ?case by simp
next
  case (Cons n ns)
  from handleMessage_effect(1,2,3) [of n s] handleMessage_effect(4) [of i n s] Cons.prems
  have "notifications (snd (handleMessage n s)) = notifications s"
    and "presented_count i (snd (handleMessage n s)) = presented_count i s"
    and "set (seenIds (snd (handleMessage n s))) = insert (n_id n) (set (seenIds s))"
    and "seen_write_throws (snd (handleMessage n s))"
    by auto
  with Cons.IH [of "snd (handleMessage n s)"] show ?case by simp
qed

text \<open>
  C1. The claim says that an id delivered on both paths is appended to the notification
  list and presented exactly once. The handler adds the id to the seen-set, then writes
  the seen-set to storage outside any \<^verbatim>\<open>try\<close>, and only then stores and draws the
  notification; the exception is swallowed by the \<^verbatim>\<open>try\<close> around the callback in the
  connection manager. First run: the write of the seen-set throws; message \<open>m1\<close> is
  handed to the handler twice (live frame, then catch-up result), and the notification is
  stored zero times and presented zero times, while its id is in the seen-set, so that no
  later delivery can bring it back. Second run: storage works; a permission request
  \<open>m2\<close> whose second action has no body is stored once, but drawing its card throws,
  so it is never presented and the history is not written; the plain message \<open>m3\<close>
  that follows is stored once and not presented either, as every later drawing of the
  dashboard throws at the card of \<open>m2\<close>.
\<close>

theorem delivered_not_once:
  "(let m1 = Parsed \<lparr>m_id = Some ''m1'', m_event = Some ''message'',
          m_title = Some ''Deploy'', m_message = Some ''Allow?'', m_time = Some 1700000000,
          m_priority = Some 4, m_tags = Some [''lock''],
          m_actions = Some [\<lparr>ra_action = ''http'', ra_label = ''OK'', ra_body = Some ''OK_42''\<rparr>]\<rparr>;
        m2 = Parsed \<lparr>m_id = Some ''m2'', m_event = Some ''message'',
          m_title = Some ''Deploy'', m_message = Some ''Allow?'', m_time = Some 1700000010,
          m_priority = Some 4, m_tags = Some [''lock''],
          m_actions = Some [\<lparr>ra_action = ''http'', ra_label = ''OK'', ra_body = Some ''OK_42''\<rparr>,
                            \<lparr>ra_action = ''http'', ra_label = ''Details'', ra_body = None\<rparr>]\<rparr>;
        m3 = Parsed \<lparr>m_id = Some ''m3'', m_event = Some ''message'',
          m_title = Some ''Build'', m_message = Some ''done'', m_time = Some 1700000020,
          m_priority = None, m_tags = None, m_actions = None\<rparr>;
        c = ws_onopen 0 1700000000500 (connect ''topic'' ''reply'' 1700000000000 ntfy_init);
        a = ap (world_deliver
              [Live 1700000001000 m1, CatchUp 1700000002000 (PollResponse 200 [m1])]
              \<lparr>nt = c, ap = app_init\<lparr>seen_write_throws := True\<rparr>\<rparr>);
        b = ap (world_deliver [Live 1700000011000 m2, Live 1700000021000 m3]
              \<lparr>nt = c, ap = app_init\<rparr>)
    in map n_id (fst (deliveries
              [Live 1700000001000 m1, CatchUp 1700000002000 (PollResponse 200 [m1])] c))
         = [''m1'', ''m1''] \<and>
       stored_count ''m1'' a = 0 \<and> presented_count ''m1'' a = 0 \<and> seenIds a = [''m1''] \<and>
       stored_count ''m2'' b = 1 \<and> presented_count ''m2'' b = 0 \<and>
       stored_count ''m3'' b = 1 \<and> presented_count ''m3'' b = 0 \<and>
       seenIds b = [''m2'', ''m3''] \<and>
       effects b = [SaveSeen [''m2''], Vibrate, Beep, RenderThrew [],
                    SaveSeen [''m2'', ''m3''], RenderThrew []])"
proof -
  let ?m1 = "Parsed \<lparr>m_id = Some ''m1'', m_event = Some ''message'',
          m_title = Some ''Deploy'', m_message = Some ''Allow?'', m_time = Some 1700000000,
          m_priority = Some 4, m_tags = Some [''lock''],
          m_actions = Some [\<lparr>ra_action = ''http'', ra_label = ''OK'', ra_body = Some ''OK_42''\<rparr>]\<rparr>"
  let ?m2 = "Parsed \<lparr>m_id = Some ''m2'', m_event = Some ''message'',
          m_title = Some ''Deploy'', m_message = Some ''Allow?'', m_time = Some 1700000010,
          m_priority = Some 4, m_tags = Some [''lock''],
          m_actions = Some [\<lparr>ra_action = ''http'', ra_label = ''OK'', ra_body = Some ''OK_42''\<rparr>,
                            \<lparr>ra_action = ''http'', ra_label = ''Details'', ra_body = None\<rparr>]\<rparr>"
  let ?m3 = "Parsed \<lparr>m_id = Some ''m3'', m_event = Some ''message'',
          m_title = Some ''Build'', m_message = Some ''done'', m_time = Some 1700000020,
          m_priority = None, m_tags = None, m_actions = None\<rparr>"
  let ?n1 = "\<lparr>n_id = ''m1'', n_type = Permission, n_title = ''Deploy'', n_message = ''Allow?'',
       n_time = 1700000000000, n_priority = 4,
       n_actions = [\<lparr>label = ''OK'', body = Some ''OK_42''\<rparr>], n_reqId = Some ''42'',
       answered = False, answeredWith = None\<rparr>"
  let ?n2 = "\<lparr>n_id = ''m2'', n_type = Permission, n_title = ''Deploy'', n_message = ''Allow?'',
       n_time = 1700000010000, n_priority = 4,
       n_actions = [\<lparr>label = ''OK'', body = Some ''OK_42''\<rparr>,
                    \<lparr>label = ''Details'', body = None\<rparr>], n_reqId = Some ''42'',
       answered = False, answeredWith = None\<rparr>"
  let ?n3 = "\<lparr>n_id = ''m3'', n_type = Decision, n_title = ''Build'', n_message = ''done'',
       n_time = 1700000020000, n_priority = 3,
       n_actions = [], n_reqId = None, answered = False, answeredWith = None\<rparr>"
  have rs: "regex_search ''OK_42'' = Some ''42''"
    by (simp add: match_at_Cons is_digit_def)
  have i1: "ingest now ?m1 s = (Some ?n1, saveLastSince 1700000000 s)" for now s
    by (simp add: ingest_def processMessage_def skip_event_def extractActions_def
        extractReqId_def str_or_def num_or_def detectType_def tags_of_def title_of_def rs Let_def
        del: regex_search.simps)
  have i2: "ingest now ?m2 s = (Some ?n2, saveLastSince 1700000010 s)" for now s
    by (simp add: ingest_def processMessage_def skip_event_def extractActions_def
        extractReqId_def str_or_def num_or_def detectType_def tags_of_def title_of_def rs Let_def
        del: regex_search.simps)
  have i3: "ingest now ?m3 s = (Some ?n3, saveLastSince 1700000020 s)" for now s
    by (simp add: ingest_def processMessage_def skip_event_def extractActions_def
        extractReqId_def str_or_def num_or_def detectType_def tags_of_def title_of_def Let_def)
  have l1: "deliver (Live t ?m1) s = ([?n1], saveLastSince 1700000000 (resetWatchdog t s))"
    for t s
    by (simp add: deliver_def ws_onmessage_def i1)
  have l2: "deliver (Live t ?m2) s = ([?n2], saveLastSince 1700000010 (resetWatchdog t s))"
    for t s
    by (simp add: deliver_def ws_onmessage_def i2)
  have l3: "deliver (Live t ?m3) s = ([?n3], saveLastSince 1700000020 (resetWatchdog t s))"
    for t s
    by (simp add: deliver_def ws_onmessage_def i3)
  have c1: "deliver (CatchUp t (PollResponse 200 [?m1])) s = ([?n1], saveLastSince 1700000000 s)"
    for t s
    by (simp add: deliver_def fetchRecent_settled_def i1)
  have da: "fst (deliveries [Live t ?m1, CatchUp t' (PollResponse 200 [?m1])] s) = [?n1, ?n1]"
    for t t' s
    by (simp add: l1 c1)
  have db: "fst (deliveries [Live t ?m2, Live t' ?m3] s) = [?n2, ?n3]" for t t' s
    by (simp add: l2 l3)
  let ?a0 = "app_init\<lparr>seen_write_throws := True\<rparr>"
  have ha: "handle_all [?n1, ?n1] ?a0 = ?a0\<lparr>seenIds := [''m1'']\<rparr>"
    by (simp add: handleMessage_def saveSeen_def app_init_def)
  have ct: "card_throws ?n2"
    by (simp add: card_throws_def)
  let ?b1 = "app_init\<lparr>seenIds := [''m2''], notifications := [(0, ?n2)], next_ref := 1,
      effects := [SaveSeen [''m2''], Vibrate, Beep, RenderThrew []]\<rparr>"
  have h2: "handleMessage ?n2 app_init = (Some TypeError, ?b1)"
    using ct
    by (simp add: handleMessage_def saveSeen_def app_init_def emit_def find_notification_def
        haptic_def is_actionable_def renderDashboard_def pending_of_def Let_def)
  let ?b2 = "app_init\<lparr>seenIds := [''m2'', ''m3''], notifications := [(1, ?n3), (0, ?n2)],
      next_ref := 2,
      effects := [SaveSeen [''m2''], Vibrate, Beep, RenderThrew [],
                  SaveSeen [''m2'', ''m3''], RenderThrew []]\<rparr>"
  have h3: "handleMessage ?n3 ?b1 = (Some TypeError, ?b2)"
    using ct
    by (simp add: handleMessage_def saveSeen_def app_init_def emit_def find_notification_def
        haptic_def is_actionable_def renderDashboard_def pending_of_def Let_def)
  have hb: "handle_all [?n2, ?n3] app_init = ?b2"
    by (simp only: handle_all.simps h2 h3 snd_conv)
  have a: "ap (world_deliver [Live t ?m1, CatchUp t' (PollResponse 200 [?m1])]
             \<lparr>nt = s, ap = ?a0\<rparr>) = ?a0\<lparr>seenIds := [''m1'']\<rparr>" for t t' s
    using da [of t t' s] ha by (simp add: world_deliver_def split_beta del: deliveries.simps handle_all.simps)
  have b: "ap (world_deliver [Live t ?m2, Live t' ?m3] \<lparr>nt = s, ap = app_init\<rparr>) = ?b2"
    for t t' s
    using db [of t t' s] hb by (simp add: world_deliver_def split_beta del: deliveries.simps handle_all.simps)
  have ra: "stored_count ''m1'' (?a0\<lparr>seenIds := [''m1'']\<rparr>) = 0"
    "presented_count ''m1'' (?a0\<lparr>seenIds := [''m1'']\<rparr>) = 0"
    by (simp_all add: stored_count_def presented_count_def app_init_def)
  have rb: "stored_count ''m2'' ?b2 = 1" "presented_count ''m2'' ?b2 = 0"
    "stored_count ''m3'' ?b2 = 1" "presented_count ''m3'' ?b2 = 0"
    by (simp_all add: stored_count_def presented_count_def)
  show ?thesis
    unfolding Let_def a b da
    using ra rb by simp
qed

subsection \<open>Publishing a response\<close>

lemma hr_finish_nt [simp]: "nt (hr_finish r b w) = nt w"
  by (simp add: hr_finish_def)

lemma mark_answered_fields [simp]:
  "effects (mark_answered r b a) = effects a"
  "seenIds (mark_answered r b a) = seenIds a"
  "history_write_throws (mark_answered r b a) = history_write_throws a"
  by (simp_all add: mark_answered_def)

lemma hr_finish_effects:
  "effects (ap (hr_finish r b w)) =
     effects (ap w) @
       (if history_write_throws (ap w) then []
        else [SaveHistory (take MAX_HISTORY (map snd (notifications (mark_answered r b (ap w))))),
              if list_ex card_throws (pending_of (map snd (notifications (mark_answered r b (ap w)))))
              then RenderThrew (takeWhile (\<lambda>n. \<not> card_throws n)
                     (pending_of (map snd (notifications (mark_answered r b (ap w))))))
              else RenderDashboard (map snd (notifications (mark_answered r b (ap w))))])"
  by (simp add: hr_finish_def renderDashboard_def saveHistory_def emit_def Let_def)

text \<open>
  C10. \<^verbatim>\<open>respond\<close> returns true exactly when the POST to the reply topic resolves, with
  whatever status (a 404 or a 500 as much as a 200: the status is never read), and false
  exactly when the request rejects. It posts the body it was given to the reply topic.
\<close>

theorem respond_ignores_status:
  "fst (respond net b s) = (net (length (posts s)) \<noteq> Rejected) \<and>
   (net (length (posts s)) = Resolved st \<longrightarrow> fst (respond net b s)) \<and>
   (net (length (posts s)) = Rejected \<longrightarrow> \<not> fst (respond net b s)) \<and>
   posts (snd (respond net b s)) = posts s @ [(replyTopic s, b)]"
  by (cases "net (length (posts s))") (simp_all add: respond_def respond_returns_def respond_send_def)

theorem respond_ignores_status_witness:
  "fst (respond (\<lambda>k. Resolved 500) ''OK_42'' (connect ''topic'' ''reply'' 0 ntfy_init)) \<and>
   fst (respond (\<lambda>k. Resolved 404) ''OK_42'' (connect ''topic'' ''reply'' 0 ntfy_init)) \<and>
   fst (respond (\<lambda>k. Resolved 200) ''OK_42'' (connect ''topic'' ''reply'' 0 ntfy_init)) \<and>
   \<not> fst (respond (\<lambda>k. Rejected) ''OK_42'' (connect ''topic'' ''reply'' 0 ntfy_init))"
  using respond_ignores_status [of "\<lambda>k. Resolved 500" "''OK_42''" "connect ''topic'' ''reply'' 0 ntfy_init" 500]
    respond_ignores_status [of "\<lambda>k. Resolved 404" "''OK_42''" "connect ''topic'' ''reply'' 0 ntfy_init" 404]
    respond_ignores_status [of "\<lambda>k. Resolved 200" "''OK_42''" "connect ''topic'' ''reply'' 0 ntfy_init" 200]
    respond_ignores_status [of "\<lambda>k. Rejected" "''OK_42''" "connect ''topic'' ''reply'' 0 ntfy_init" 0]
  by simp

text \<open>
  C4, as stated: \<^verbatim>\<open>respond\<close> retries once and returns false only if both attempts
  fail. With a first request that rejects and a second one that would resolve,
  \<^verbatim>\<open>respond\<close> returns false, having posted once.
\<close>

theorem respond_retry_counterexample:
  "(\<lambda>k. if k = 0 then Rejected else Resolved 200) (1 :: nat) = Resolved 200 \<and>
   \<not> fst (respond (\<lambda>k. if k = 0 then Rejected else Resolved 200) ''OK_42''
            (connect ''topic'' ''reply'' 0 ntfy_init)) \<and>
   posts (snd (respond (\<lambda>k. if k = 0 then Rejected else Resolved 200) ''OK_42''
            (connect ''topic'' ''reply'' 0 ntfy_init))) = [(''reply'', ''OK_42'')]"
  by (simp add: respond_def respond_returns_def respond_send_def connect_def
      connect_socket_def ready_def loadLastSince_def ntfy_init_def setStatus_def
      fetchRecent_start_def)

text \<open>
  C4, amended. \<^verbatim>\<open>respond\<close> posts the body to the reply topic once and returns whether
  that one request resolved; it does not retry. The retry is its caller's:
  \<^verbatim>\<open>handleResponse\<close>, for a stored notification that is not answered, calls
  \<^verbatim>\<open>respond\<close>, and when that returns false it waits 1000 ms and calls \<^verbatim>\<open>respond\<close>
  once more with the same body. So it posts once when the first request resolves and twice
  otherwise, never more; the outcome of the second request is not looked at and no
  success value is returned. What follows the requests is the write of the history and
  the drawing of the dashboard: nothing when the write throws, and a drawing that stops
  at the first card that throws.
\<close>

theorem respond_single_attempt:
  "posts (snd (respond net b s)) = posts s @ [(replyTopic s, b)] \<and>
   fst (respond net b s) = respond_returns (net (length (posts s))) \<and>
   (find_notification i (ap w) = Some (r, n) \<and> \<not> answered n \<longrightarrow>
      posts (nt (handleResponse net i b w)) =
        posts (nt w) @
          (if respond_returns (net (length (posts (nt w))))
           then [(replyTopic (nt w), b)]
           else [(replyTopic (nt w), b), (replyTopic (nt w), b)]) \<and>
      effects (ap (handleResponse net i b w)) =
        effects (ap w) @
          (if respond_returns (net (length (posts (nt w)))) then [] else [Sleep 1000]) @
          (if history_write_throws (ap w) then []
           else [SaveHistory (take MAX_HISTORY (map snd (notifications (mark_answered r b (ap w))))),
                 if list_ex card_throws
                      (pending_of (map snd (notifications (mark_answered r b (ap w)))))
                 then RenderThrew (takeWhile (\<lambda>n. \<not> card_throws n)
                        (pending_of (map snd (notifications (mark_answered r b (ap w))))))
                 else RenderDashboard (map snd (notifications (mark_answered r b (ap w))))]))"
proof -
  have r: "posts (snd (respond net b s)) = posts s @ [(replyTopic s, b)] \<and>
     fst (respond net b s) = respond_returns (net (length (posts s)))"
    by (simp add: respond_def respond_send_def)
  have h: "posts (nt (handleResponse net i b w)) =
        posts (nt w) @
          (if respond_returns (net (length (posts (nt w))))
           then [(replyTopic (nt w), b)]
           else [(replyTopic (nt w), b), (replyTopic (nt w), b)]) \<and>
      effects (ap (handleResponse net i b w)) =
        effects (ap w) @
          (if respond_returns (net (length (posts (nt w)))) then [] else [Sleep 1000]) @
          (if history_write_throws (ap w) then []
           else [SaveHistory (take MAX_HISTORY (map snd (notifications (mark_answered r b (ap w))))),
                 if list_ex card_throws
                      (pending_of (map snd (notifications (mark_answered r b (ap w)))))
                 then RenderThrew (takeWhile (\<lambda>n. \<not> card_throws n)
                        (pending_of (map snd (notifications (mark_answered r b (ap w))))))
                 else RenderDashboard (map snd (notifications (mark_answered r b (ap w))))])"
    if "find_notification i (ap w) = Some (r, n)" "\<not> answered n"
    using that
    by (simp add: handleResponse_def respond_def respond_send_def Let_def hr_finish_effects
        emit_def del: mark_answered_fields(1))
       (simp add: mark_answered_def)
  from r h show ?thesis by blast
qed

theorem respond_single_attempt_witness:
  "posts (nt (handleResponse (\<lambda>k. if k = 0 then Rejected else Resolved 200) ''m1'' ''OK_42''
      \<lparr>nt = ntfy_init\<lparr>replyTopic := ''reply''\<rparr>,
       ap = app_init\<lparr>notifications := [(0, \<lparr>n_id = ''m1'', n_type = Permission, n_title = ''Deploy'',
            n_message = ''Allow?'', n_time = 1700000000000, n_priority = 4,
            n_actions = [\<lparr>label = ''OK'', body = Some ''OK_42''\<rparr>,
                         \<lparr>label = ''Deny'', body = Some ''NOK_42''\<rparr>],
            n_reqId = Some ''42'', answered = False, answeredWith = None\<rparr>)],
              next_ref := 1, seenIds := [''m1'']\<rparr>\<rparr>))
     = [(''reply'', ''OK_42''), (''reply'', ''OK_42'')] \<and>
   posts (nt (handleResponse (\<lambda>k. Resolved 200) ''m1'' ''OK_42''
      \<lparr>nt = ntfy_init\<lparr>replyTopic := ''reply''\<rparr>,
       ap = app_init\<lparr>notifications := [(0, \<lparr>n_id = ''m1'', n_type = Permission, n_title = ''Deploy'',
            n_message = ''Allow?'', n_time = 1700000000000, n_priority = 4,
            n_actions = [\<lparr>label = ''OK'', body = Some ''OK_42''\<rparr>,
                         \<lparr>label = ''Deny'', body = Some ''NOK_42''\<rparr>],
            n_reqId = Some ''42'', answered = False, answeredWith = None\<rparr>)],
              next_ref := 1, seenIds := [''m1'']\<rparr>\<rparr>))
     = [(''reply'', ''OK_42'')]"
proof -
  let ?n1 = "\<lparr>n_id = ''m1'', n_type = Permission, n_title = ''Deploy'',
            n_message = ''Allow?'', n_time = 1700000000000, n_priority = 4,
            n_actions = [\<lparr>label = ''OK'', body = Some ''OK_42''\<rparr>,
                         \<lparr>label = ''Deny'', body = Some ''NOK_42''\<rparr>],
            n_reqId = Some ''42'', answered = False, answeredWith = None\<rparr>"
  let ?w = "\<lparr>nt = ntfy_init\<lparr>replyTopic := ''reply''\<rparr>,
       ap = app_init\<lparr>notifications := [(0, \<lparr>n_id = ''m1'', n_type = Permission, n_title = ''Deploy'',
            n_message = ''Allow?'', n_time = 1700000000000, n_priority = 4,
            n_actions = [\<lparr>label = ''OK'', body = Some ''OK_42''\<rparr>,
                         \<lparr>label = ''Deny'', body = Some ''NOK_42''\<rparr>],
            n_reqId = Some ''42'', answered = False, answeredWith = None\<rparr>)],
              next_ref := 1, seenIds := [''m1'']\<rparr>\<rparr>"
  have f: "find_notification ''m1'' (ap ?w) = Some (0, ?n1) \<and> \<not> answered ?n1"
    by (simp add: find_notification_def)
  have p: "posts (nt ?w) = []" "replyTopic (nt ?w) = ''reply''"
    by (simp_all add: ntfy_init_def)
  from respond_single_attempt [of "\<lambda>k. if k = 0 then Rejected else Resolved 200" "''OK_42''" "nt ?w" "''m1''" ?w 0 ?n1]
    respond_single_attempt [of "\<lambda>k. Resolved 200" "''OK_42''" "nt ?w" "''m1''" ?w 0 ?n1] f p
  show ?thesis by (simp add: respond_returns_def)
qed

subsection \<open>Marking a notification answered\<close>

text \<open>
  Run without interruption, \<^verbatim>\<open>handleResponse\<close> does nothing for an id that is unknown or
  already answered, and otherwise sets the pair of the notification it found to the body,
  whatever the outcome of the requests, touching no other field and no other notification.
\<close>

lemma handleResponse_unknown_or_answered:
  assumes "find_notification i (ap w) = None \<or>
           (\<exists>r n. find_notification i (ap w) = Some (r, n) \<and> answered n)"
  shows "handleResponse net i b w = w"
  using assms by (auto simp: handleResponse_def)

lemma handleResponse_marks_answered:
  assumes "find_notification i (ap w) = Some (r, n)" "\<not> answered n"
  shows "notifications (ap (handleResponse net i b w)) =
           map (\<lambda>(j, m). if j = r then (j, m\<lparr>answered := True, answeredWith := Some b\<rparr>) else (j, m))
             (notifications (ap w))"
    and "seenIds (ap (handleResponse net i b w)) = seenIds (ap w)"
  using assms
  by (simp_all add: handleResponse_def Let_def split_beta hr_finish_def renderDashboard_def
      saveHistory_def emit_def mark_answered_def)

text \<open>Run without interruption, the pieces of \<open>hr_begin\<close> and \<open>hr_resume\<close> are \<open>handleResponse\<close>.\<close>

lemma handleResponse_by_pieces:
  "handleResponse net i b w =
     (case hr_begin i b w of
        (None, w1) \<Rightarrow> w1
      | (Some c1, w1) \<Rightarrow>
          (case hr_resume c1 (Settled (net (length (posts (nt w))))) w1 of
             (None, w2) \<Rightarrow> w2
           | (Some c2, w2) \<Rightarrow>
               (case hr_resume c2 Elapsed w2 of
                  (None, w3) \<Rightarrow> w3
                | (Some c3, w3) \<Rightarrow>
                    snd (hr_resume c3 (Settled (net (length (posts (nt w2))))) w3))))"
  by (auto simp: handleResponse_def hr_begin_def respond_def Let_def split: option.splits)

text \<open>
  C5. The pair \<^verbatim>\<open>(answered, answeredWith)\<close> is to change at most once. The guard against a
  second change is read at the start of \<^verbatim>\<open>handleResponse\<close> and the pair is written only
  after the \<^verbatim>\<open>await\<close>s, so two calls for the same notification that overlap both pass
  the guard. Below, the user taps OK and then Deny before the first POST has settled: both
  bodies are posted, and the pair goes from (false, null) to (true, "OK_42") and then to
  (true, "NOK_42").
\<close>

theorem handleResponse_overlap:
  "(let w0 = \<lparr>nt = ntfy_init\<lparr>replyTopic := ''reply''\<rparr>,
       ap = app_init\<lparr>notifications := [(0, \<lparr>n_id = ''m1'', n_type = Permission, n_title = ''Deploy'',
            n_message = ''Allow?'', n_time = 1700000000000, n_priority = 4,
            n_actions = [\<lparr>label = ''OK'', body = Some ''OK_42''\<rparr>,
                         \<lparr>label = ''Deny'', body = Some ''NOK_42''\<rparr>],
            n_reqId = Some ''42'', answered = False, answeredWith = None\<rparr>)],
              next_ref := 1, seenIds := [''m1'']\<rparr>\<rparr>;
        (c1, w1) = hr_begin ''m1'' ''OK_42'' w0;
        (c2, w2) = hr_begin ''m1'' ''NOK_42'' w1;
        (c3, w3) = hr_resume (AwaitFirst 0 ''OK_42'') (Settled (Resolved 200)) w2;
        (c4, w4) = hr_resume (AwaitFirst 0 ''NOK_42'') (Settled (Resolved 200)) w3
    in answer_pair ''m1'' w0 = Some (False, None) \<and>
       c1 = Some (AwaitFirst 0 ''OK_42'') \<and>
       c2 = Some (AwaitFirst 0 ''NOK_42'') \<and>
       answer_pair ''m1'' w2 = Some (False, None) \<and>
       c3 = None \<and>
       answer_pair ''m1'' w3 = Some (True, Some ''OK_42'') \<and>
       c4 = None \<and>
       answer_pair ''m1'' w4 = Some (True, Some ''NOK_42'') \<and>
       posts (nt w4) = [(''reply'', ''OK_42''), (''reply'', ''NOK_42'')])"
  by (simp add: hr_begin_def find_notification_def answer_pair_def respond_send_def
      respond_returns_def hr_finish_def mark_answered_def renderDashboard_def saveHistory_def
      pending_of_def emit_def ntfy_init_def app_init_def Let_def)

subsection \<open>Other handlers\<close>

text \<open>
  A disconnect asked for by the caller leaves no timer behind, and the close event of any
  socket that follows it, with no connect in between, schedules nothing.
\<close>

lemma disconnect_suppresses_reconnect:
  "reconnectTimer (disconnect s) = None \<and> watchdogTimer (disconnect s) = None \<and>
   reconnectTimer (ws_onclose k t (disconnect s)) = None \<and>
   watchdogTimer (ws_onclose k t (disconnect s)) = None \<and>
   statuses (ws_onclose k t (disconnect s)) = statuses s @ [Disconnected]"
  by (simp add: disconnect_def ws_onclose_def ws_close_def set_ready_def clearWatchdog_def
      setStatus_def Let_def split: option.splits)

text \<open>The wake-up signals put the delay back to the floor and drop a pending timer.\<close>

lemma forceReconnect_floor:
  "reconnectDelay (forceReconnect now s) = 1000 \<and> reconnectTimer (forceReconnect now s) = None"
  by (simp add: forceReconnect_def connect_socket_def fetchRecent_start_def setStatus_def)

text \<open>\<^verbatim>\<open>handleMessage\<close> never changes a stored notification: it adds one in front or none.\<close>

lemma handleMessage_keeps_stored:
  "notifications (snd (handleMessage n s)) = notifications s \<or>
   notifications (snd (handleMessage n s)) = (next_ref s, n) # notifications s"
  using handleMessage_effect(1) [of n s] by (simp split: if_splits)

end
